theory Spec2Isabelle
  imports Complex_Main
begin

section \<open>Numbers, vectors and the kinematic target\<close>

text \<open>
  The behaviours of \<^verbatim>\<open>src/engine/Actions/Action.ts\<close> compute on JavaScript numbers.
  They are modelled as \<^typ>\<open>real\<close>: rounding, infinities and not-a-number are outside
  the model.  A field that the source leaves \<^verbatim>\<open>undefined\<close> until the first update is an
  \<^typ>\<open>'a option\<close>; a comparison that reads such a field is false, as a comparison
  with not-a-number is in the source.
\<close>

datatype error =
  SpeedError      \<comment> \<open>\<^verbatim>\<open>Error('Speed must be greater than 0 pixels per second')\<close>\<close>
| UndefinedRead   \<comment> \<open>a field still \<^verbatim>\<open>undefined\<close> is used: a TypeError or not-a-number\<close>

record Vector =
  vec_x :: real
  vec_y :: real

definition vec :: "real \<Rightarrow> real \<Rightarrow> Vector" where
  "vec a b = \<lparr>vec_x = a, vec_y = b\<rparr>"

text \<open>
  Modelled from the spec: the vector helpers of \<^verbatim>\<open>Algebra.ts\<close>, which is not among the
  sources (straight-line distance, difference, sum, scaling, length and unit direction).
  The unit direction of the zero vector is taken to be \<open>(0, 1)\<close>; no result below
  depends on that choice.
\<close>

definition distance :: "Vector \<Rightarrow> Vector \<Rightarrow> real" where
  "distance a b = sqrt ((vec_x a - vec_x b)\<^sup>2 + (vec_y a - vec_y b)\<^sup>2)"

definition sub :: "Vector \<Rightarrow> Vector \<Rightarrow> Vector" where
  "sub a b = vec (vec_x a - vec_x b) (vec_y a - vec_y b)"

definition add :: "Vector \<Rightarrow> Vector \<Rightarrow> Vector" where
  "add a b = vec (vec_x a + vec_x b) (vec_y a + vec_y b)"

definition scale_vec :: "Vector \<Rightarrow> real \<Rightarrow> Vector" where
  "scale_vec a k = vec (vec_x a * k) (vec_y a * k)"

definition size_vec :: "Vector \<Rightarrow> real" where
  "size_vec a = sqrt ((vec_x a)\<^sup>2 + (vec_y a)\<^sup>2)"

definition normalize :: "Vector \<Rightarrow> Vector" where
  "normalize a =
     (let d = size_vec a
      in if d > 0 then vec (vec_x a / d) (vec_y a / d) else vec 0 1)"

text \<open>
  The kinematic target: the fields of \<^verbatim>\<open>Actor\<close> that the behaviours read and write
  (\<^verbatim>\<open>Actor.ts\<close> itself is not among the sources).
\<close>

record Actor =
  pos :: Vector
  vel :: Vector
  rotation :: real
  rx :: real
  scale :: Vector
  sx :: real
  sy :: real
  opacity :: real
  visible :: bool

section \<open>MoveTo and MoveBy\<close>

record MoveTo =
  mt_start :: "Vector option"
  mt_end :: Vector
  mt_dir :: "Vector option"
  mt_speed :: real
  mt_distance :: "real option"
  mt_started :: bool
  mt_stopped :: bool

text \<open>The constructor of \<^verbatim>\<open>MoveTo\<close> stores its arguments; it has no failing branch.\<close>

definition MoveTo_new :: "real \<Rightarrow> real \<Rightarrow> real \<Rightarrow> error + MoveTo" where
  "MoveTo_new destx desty speed =
     Inr \<lparr>mt_start = None, mt_end = vec destx desty, mt_dir = None, mt_speed = speed,
          mt_distance = None, mt_started = False, mt_stopped = False\<rparr>"

definition MoveTo_isComplete :: "MoveTo \<Rightarrow> Actor \<Rightarrow> bool" where
  "MoveTo_isComplete m actor =
     (mt_stopped m \<or>
      (case (mt_start m, mt_distance m) of
         (Some s, Some d) \<Rightarrow> distance (vec (vec_x (pos actor)) (vec_y (pos actor))) s \<ge> d
       | _ \<Rightarrow> False))"

text \<open>The block of \<^verbatim>\<open>MoveTo.update\<close> that runs when the behaviour has not started.\<close>

definition MoveTo_begin :: "MoveTo \<Rightarrow> Actor \<Rightarrow> MoveTo" where
  "MoveTo_begin m a =
     (let s = vec (vec_x (pos a)) (vec_y (pos a))
      in m\<lparr>mt_started := True, mt_start := Some s,
            mt_distance := Some (distance s (mt_end m)),
            mt_dir := Some (normalize (sub (mt_end m) s))\<rparr>)"

definition MoveTo_update :: "real \<Rightarrow> MoveTo \<times> Actor \<Rightarrow> error + MoveTo \<times> Actor" where
  "MoveTo_update delta = (\<lambda>(m0, a0).
     let m1 = (if \<not> mt_started m0 then MoveTo_begin m0 a0 else m0)
     in case mt_dir m1 of
          None \<Rightarrow> Inl UndefinedRead
        | Some d \<Rightarrow>
            let m = scale_vec d (mt_speed m1);
                a1 = a0\<lparr>vel := vec (vec_x m) (vec_y m)\<rparr>
            in if MoveTo_isComplete m1 a1
               then Inr (m1, a1\<lparr>pos := vec (vec_x (mt_end m1)) (vec_y (mt_end m1)), vel := vec 0 0\<rparr>)
               else Inr (m1, a1))"

definition MoveTo_stop :: "MoveTo \<times> Actor \<Rightarrow> MoveTo \<times> Actor" where
  "MoveTo_stop = (\<lambda>(m, a). (m\<lparr>mt_stopped := True\<rparr>, a\<lparr>vel := vec 0 0\<rparr>))"

definition MoveTo_reset :: "MoveTo \<Rightarrow> MoveTo" where
  "MoveTo_reset m = m\<lparr>mt_started := False\<rparr>"

record MoveBy =
  mb_distance :: "real option"
  mb_speed :: real
  mb_start :: "Vector option"
  mb_offset :: Vector
  mb_end :: "Vector option"
  mb_dir :: "Vector option"
  mb_started :: bool
  mb_stopped :: bool

definition MoveBy_new :: "real \<Rightarrow> real \<Rightarrow> real \<Rightarrow> error + MoveBy" where
  "MoveBy_new offsetX offsetY speed =
     (if speed \<le> 0 then Inl SpeedError
      else Inr \<lparr>mb_distance = None, mb_speed = speed, mb_start = None,
                mb_offset = vec offsetX offsetY, mb_end = None, mb_dir = None,
                mb_started = False, mb_stopped = False\<rparr>)"

definition MoveBy_isComplete :: "MoveBy \<Rightarrow> Actor \<Rightarrow> bool" where
  "MoveBy_isComplete m actor =
     (mb_stopped m \<or>
      (case (mb_start m, mb_distance m) of
         (Some s, Some d) \<Rightarrow> distance (pos actor) s \<ge> d
       | _ \<Rightarrow> False))"

text \<open>The block of \<^verbatim>\<open>MoveBy.update\<close> that runs when the behaviour has not started.\<close>

definition MoveBy_begin :: "MoveBy \<Rightarrow> Actor \<Rightarrow> MoveBy" where
  "MoveBy_begin m a =
     (let s = vec (vec_x (pos a)) (vec_y (pos a));
          e = add s (mb_offset m)
      in m\<lparr>mb_started := True, mb_start := Some s, mb_end := Some e,
            mb_distance := Some (size_vec (mb_offset m)),
            mb_dir := Some (normalize (sub e s))\<rparr>)"

definition MoveBy_update :: "real \<Rightarrow> MoveBy \<times> Actor \<Rightarrow> error + MoveBy \<times> Actor" where
  "MoveBy_update delta = (\<lambda>(m0, a0).
     let m1 = (if \<not> mb_started m0 then MoveBy_begin m0 a0 else m0)
     in case mb_dir m1 of
          None \<Rightarrow> Inl UndefinedRead
        | Some d \<Rightarrow>
            (case mb_end m1 of
               None \<Rightarrow> Inl UndefinedRead
             | Some e \<Rightarrow>
                 let a1 = a0\<lparr>vel := scale_vec d (mb_speed m1)\<rparr>
                 in if MoveBy_isComplete m1 a1
                    then Inr (m1, a1\<lparr>pos := vec (vec_x e) (vec_y e), vel := vec 0 0\<rparr>)
                    else Inr (m1, a1)))"

definition MoveBy_stop :: "MoveBy \<times> Actor \<Rightarrow> MoveBy \<times> Actor" where
  "MoveBy_stop = (\<lambda>(m, a). (m\<lparr>mb_stopped := True\<rparr>, a\<lparr>vel := vec 0 0\<rparr>))"

definition MoveBy_reset :: "MoveBy \<Rightarrow> MoveBy" where
  "MoveBy_reset m = m\<lparr>mb_started := False\<rparr>"

section \<open>EaseTo\<close>

text \<open>
  The fields of \<^verbatim>\<open>EaseTo\<close> all have initialisers, so none is optional.  The velocity
  of a tick divides by \<^verbatim>\<open>delta / 1000\<close>; at \<open>delta = 0\<close> the source divides by zero,
  which the real-number model does not represent (HOL's quotient is \<open>0\<close> there).
\<close>

record EaseTo =
  ez_currentLerpTime :: real
  ez_lerpDuration :: real
  ez_lerpStart :: Vector
  ez_lerpEnd :: Vector
  ez_initialized :: bool
  ez_stopped :: bool
  ez_distance :: real
  ez_easingFcn :: "real \<Rightarrow> real \<Rightarrow> real \<Rightarrow> real \<Rightarrow> real"

definition EaseTo_new ::
  "real \<Rightarrow> real \<Rightarrow> real \<Rightarrow> (real \<Rightarrow> real \<Rightarrow> real \<Rightarrow> real \<Rightarrow> real) \<Rightarrow> EaseTo" where
  "EaseTo_new x y duration easingFcn =
     \<lparr>ez_currentLerpTime = 0, ez_lerpDuration = duration, ez_lerpStart = vec 0 0,
      ez_lerpEnd = vec x y, ez_initialized = False, ez_stopped = False, ez_distance = 0,
      ez_easingFcn = easingFcn\<rparr>"

definition EaseTo_initialize :: "EaseTo \<Rightarrow> Actor \<Rightarrow> EaseTo" where
  "EaseTo_initialize e a =
     (let s = vec (vec_x (pos a)) (vec_y (pos a))
      in e\<lparr>ez_lerpStart := s, ez_currentLerpTime := 0,
            ez_distance := distance s (ez_lerpEnd e)\<rparr>)"

definition EaseTo_update :: "real \<Rightarrow> EaseTo \<times> Actor \<Rightarrow> error + EaseTo \<times> Actor" where
  "EaseTo_update delta = (\<lambda>(e0, a0).
     let e1 = (if \<not> ez_initialized e0
               then (EaseTo_initialize e0 a0)\<lparr>ez_initialized := True\<rparr> else e0);
         e2 = e1\<lparr>ez_currentLerpTime := ez_currentLerpTime e1 + delta\<rparr>;
         t = ez_currentLerpTime e2; dur = ez_lerpDuration e2;
         s = ez_lerpStart e2; e = ez_lerpEnd e2; f = ez_easingFcn e2
     in if t < dur
        then
          (let newX = (if vec_x e < vec_x s
                       then vec_x s - (f t (vec_x e) (vec_x s) dur - vec_x e)
                       else f t (vec_x s) (vec_x e) dur);
               newY = (if vec_y e < vec_y s
                       then vec_y s - (f t (vec_y e) (vec_y s) dur - vec_y e)
                       else f t (vec_y s) (vec_y e) dur)
           in Inr (e2, a0\<lparr>vel := vec ((newX - vec_x (pos a0)) / (delta / 1000))
                                     ((newY - vec_y (pos a0)) / (delta / 1000))\<rparr>))
        else Inr (e2, a0\<lparr>pos := vec (vec_x e) (vec_y e), vel := vec 0 0\<rparr>))"

definition EaseTo_isComplete :: "EaseTo \<Rightarrow> Actor \<Rightarrow> bool" where
  "EaseTo_isComplete e actor =
     (ez_stopped e \<or>
      distance (vec (vec_x (pos actor)) (vec_y (pos actor))) (ez_lerpStart e) \<ge> ez_distance e)"

definition EaseTo_reset :: "EaseTo \<Rightarrow> EaseTo" where
  "EaseTo_reset e = e\<lparr>ez_initialized := False\<rparr>"

definition EaseTo_stop :: "EaseTo \<times> Actor \<Rightarrow> EaseTo \<times> Actor" where
  "EaseTo_stop = (\<lambda>(e, a). (e\<lparr>ez_stopped := True\<rparr>, a\<lparr>vel := vec 0 0\<rparr>))"

section \<open>RotateTo and RotateBy\<close>

datatype RotationType = ShortestPath | LongestPath | Clockwise | CounterClockwise

text \<open>
  Modelled from the spec: \<^verbatim>\<open>Util.TwoPI\<close>, the full turn \<open>2\<pi>\<close>, of \<^verbatim>\<open>Util.ts\<close>, which is
  not among the sources.  \<^verbatim>\<open>Math.PI\<close> is \<^term>\<open>pi\<close>.
\<close>

definition TwoPI :: real where
  "TwoPI = 2 * pi"

text \<open>
  JavaScript's \<^verbatim>\<open>%\<close> on numbers: the remainder of the division truncated towards zero,
  with the sign of the dividend.
\<close>

definition js_trunc :: "real \<Rightarrow> int" where
  "js_trunc q = (if 0 \<le> q then \<lfloor>q\<rfloor> else \<lceil>q\<rceil>)"

definition js_rem :: "real \<Rightarrow> real \<Rightarrow> real" where
  "js_rem a b = a - b * of_int (js_trunc (a / b))"

record RotateTo =
  rt_start :: "real option"
  rt_end :: real
  rt_speed :: real
  rt_rotationType :: RotationType
  rt_direction :: "real option"
  rt_distance :: "real option"
  rt_shortDistance :: "real option"
  rt_longDistance :: "real option"
  rt_shortestPathIsPositive :: "bool option"
  rt_currentNonCannonAngle :: "real option"
  rt_started :: bool
  rt_stopped :: bool

definition RotateTo_new :: "real \<Rightarrow> real \<Rightarrow> RotationType option \<Rightarrow> RotateTo" where
  "RotateTo_new angleRadians speed rotationType =
     \<lparr>rt_start = None, rt_end = angleRadians, rt_speed = speed,
      rt_rotationType = (case rotationType of None \<Rightarrow> ShortestPath | Some t \<Rightarrow> t),
      rt_direction = None, rt_distance = None, rt_shortDistance = None,
      rt_longDistance = None, rt_shortestPathIsPositive = None,
      rt_currentNonCannonAngle = None, rt_started = False, rt_stopped = False\<rparr>"

text \<open>The block of \<^verbatim>\<open>RotateTo.update\<close> that runs when the behaviour has not started.\<close>

definition RotateTo_begin :: "RotateTo \<Rightarrow> Actor \<Rightarrow> RotateTo" where
  "RotateTo_begin r a =
     (let start = rotation a;
          distance1 = \<bar>rt_end r - start\<bar>;
          distance2 = TwoPI - distance1;
          shortDistance = (if distance1 > distance2 then distance2 else distance1);
          longDistance = (if distance1 > distance2 then distance1 else distance2);
          shortestPathIsPositive = (js_rem (start - rt_end r + TwoPI) TwoPI \<ge> pi);
          dist = (case rt_rotationType r of
                    ShortestPath \<Rightarrow> shortDistance
                  | LongestPath \<Rightarrow> longDistance
                  | Clockwise \<Rightarrow> (if shortestPathIsPositive then shortDistance else longDistance)
                  | CounterClockwise \<Rightarrow>
                      (if \<not> shortestPathIsPositive then shortDistance else longDistance));
          dir = (case rt_rotationType r of
                   ShortestPath \<Rightarrow> (if shortestPathIsPositive then 1 else -1)
                 | LongestPath \<Rightarrow> (if shortestPathIsPositive then -1 else 1)
                 | Clockwise \<Rightarrow> 1
                 | CounterClockwise \<Rightarrow> -1)
      in r\<lparr>rt_started := True, rt_start := Some start,
            rt_currentNonCannonAngle := Some start,
            rt_shortDistance := Some shortDistance, rt_longDistance := Some longDistance,
            rt_shortestPathIsPositive := Some shortestPathIsPositive,
            rt_distance := Some dist, rt_direction := Some dir\<rparr>)"

definition RotateTo_isComplete :: "RotateTo \<Rightarrow> bool" where
  "RotateTo_isComplete r =
     (case (rt_currentNonCannonAngle r, rt_start r, rt_distance r) of
        (Some c, Some s, Some d) \<Rightarrow> rt_stopped r \<or> \<bar>c - s\<bar> \<ge> \<bar>d\<bar>
      | _ \<Rightarrow> rt_stopped r)"

definition RotateTo_update :: "real \<Rightarrow> RotateTo \<times> Actor \<Rightarrow> error + RotateTo \<times> Actor" where
  "RotateTo_update delta = (\<lambda>(r0, a0).
     let r1 = (if \<not> rt_started r0 then RotateTo_begin r0 a0 else r0)
     in case (rt_direction r1, rt_currentNonCannonAngle r1) of
          (Some dir, Some c) \<Rightarrow>
            let a1 = a0\<lparr>rx := dir * rt_speed r1\<rparr>;
                r2 = r1\<lparr>rt_currentNonCannonAngle :=
                          Some (c + (dir * rt_speed r1) * (delta / 1000))\<rparr>
            in if RotateTo_isComplete r2
               then Inr (r2\<lparr>rt_stopped := True\<rparr>, a1\<lparr>rotation := rt_end r2, rx := 0\<rparr>)
               else Inr (r2, a1)
        | _ \<Rightarrow> Inl UndefinedRead)"

definition RotateTo_stop :: "RotateTo \<times> Actor \<Rightarrow> RotateTo \<times> Actor" where
  "RotateTo_stop = (\<lambda>(r, a). (r\<lparr>rt_stopped := True\<rparr>, a\<lparr>rx := 0\<rparr>))"

definition RotateTo_reset :: "RotateTo \<Rightarrow> RotateTo" where
  "RotateTo_reset r = r\<lparr>rt_started := False\<rparr>"

record RotateBy =
  rb_start :: "real option"
  rb_end :: "real option"
  rb_speed :: real
  rb_offset :: real
  rb_rotationType :: RotationType
  rb_direction :: "real option"
  rb_distance :: "real option"
  rb_shortDistance :: "real option"
  rb_longDistance :: "real option"
  rb_shortestPathIsPositive :: "bool option"
  rb_currentNonCannonAngle :: "real option"
  rb_started :: bool
  rb_stopped :: bool

definition RotateBy_new :: "real \<Rightarrow> real \<Rightarrow> RotationType option \<Rightarrow> RotateBy" where
  "RotateBy_new angleRadiansOffset speed rotationType =
     \<lparr>rb_start = None, rb_end = None, rb_speed = speed, rb_offset = angleRadiansOffset,
      rb_rotationType = (case rotationType of None \<Rightarrow> ShortestPath | Some t \<Rightarrow> t),
      rb_direction = None, rb_distance = None, rb_shortDistance = None,
      rb_longDistance = None, rb_shortestPathIsPositive = None,
      rb_currentNonCannonAngle = None, rb_started = False, rb_stopped = False\<rparr>"

text \<open>The block of \<^verbatim>\<open>RotateBy.update\<close> that runs when the behaviour has not started.\<close>

definition RotateBy_begin :: "RotateBy \<Rightarrow> Actor \<Rightarrow> RotateBy" where
  "RotateBy_begin r a =
     (let start = rotation a;
          endv = start + rb_offset r;
          distance1 = \<bar>endv - start\<bar>;
          distance2 = TwoPI - distance1;
          shortDistance = (if distance1 > distance2 then distance2 else distance1);
          longDistance = (if distance1 > distance2 then distance1 else distance2);
          shortestPathIsPositive = (js_rem (start - endv + TwoPI) TwoPI \<ge> pi);
          dist = (case rb_rotationType r of
                    ShortestPath \<Rightarrow> shortDistance
                  | LongestPath \<Rightarrow> longDistance
                  | Clockwise \<Rightarrow> (if shortDistance \<ge> 0 then shortDistance else longDistance)
                  | CounterClockwise \<Rightarrow>
                      (if shortDistance \<le> 0 then shortDistance else longDistance));
          dir = (case rb_rotationType r of
                   ShortestPath \<Rightarrow> (if shortestPathIsPositive then 1 else -1)
                 | LongestPath \<Rightarrow> (if shortestPathIsPositive then -1 else 1)
                 | Clockwise \<Rightarrow> 1
                 | CounterClockwise \<Rightarrow> -1)
      in r\<lparr>rb_started := True, rb_start := Some start,
            rb_currentNonCannonAngle := Some start, rb_end := Some endv,
            rb_shortDistance := Some shortDistance, rb_longDistance := Some longDistance,
            rb_shortestPathIsPositive := Some shortestPathIsPositive,
            rb_distance := Some dist, rb_direction := Some dir\<rparr>)"

definition RotateBy_isComplete :: "RotateBy \<Rightarrow> bool" where
  "RotateBy_isComplete r =
     (case (rb_currentNonCannonAngle r, rb_start r, rb_distance r) of
        (Some c, Some s, Some d) \<Rightarrow> rb_stopped r \<or> \<bar>c - s\<bar> \<ge> \<bar>d\<bar>
      | _ \<Rightarrow> rb_stopped r)"

definition RotateBy_update :: "real \<Rightarrow> RotateBy \<times> Actor \<Rightarrow> error + RotateBy \<times> Actor" where
  "RotateBy_update delta = (\<lambda>(r0, a0).
     let r1 = (if \<not> rb_started r0 then RotateBy_begin r0 a0 else r0)
     in case (rb_direction r1, rb_currentNonCannonAngle r1, rb_end r1) of
          (Some dir, Some c, Some e) \<Rightarrow>
            let a1 = a0\<lparr>rx := dir * rb_speed r1\<rparr>;
                r2 = r1\<lparr>rb_currentNonCannonAngle :=
                          Some (c + (dir * rb_speed r1) * (delta / 1000))\<rparr>
            in if RotateBy_isComplete r2
               then Inr (r2\<lparr>rb_stopped := True\<rparr>, a1\<lparr>rotation := e, rx := 0\<rparr>)
               else Inr (r2, a1)
        | _ \<Rightarrow> Inl UndefinedRead)"

definition RotateBy_stop :: "RotateBy \<times> Actor \<Rightarrow> RotateBy \<times> Actor" where
  "RotateBy_stop = (\<lambda>(r, a). (r\<lparr>rb_stopped := True\<rparr>, a\<lparr>rx := 0\<rparr>))"

definition RotateBy_reset :: "RotateBy \<Rightarrow> RotateBy" where
  "RotateBy_reset r = r\<lparr>rb_started := False\<rparr>"

section \<open>ScaleTo and ScaleBy\<close>

text \<open>
  The test \<^verbatim>\<open>Math.abs(current - start) >= distance\<close>, which both classes apply to an
  axis of the scale.
\<close>

definition covered :: "real \<Rightarrow> real \<Rightarrow> real \<Rightarrow> bool" where
  "covered current start d = (\<bar>current - start\<bar> \<ge> d)"

record ScaleTo =
  st_startX :: "real option"
  st_startY :: "real option"
  st_endX :: real
  st_endY :: real
  st_speedX :: real
  st_speedY :: real
  st_distanceX :: "real option"
  st_distanceY :: "real option"
  st_started :: bool
  st_stopped :: bool

definition ScaleTo_new :: "real \<Rightarrow> real \<Rightarrow> real \<Rightarrow> real \<Rightarrow> ScaleTo" where
  "ScaleTo_new scaleX scaleY speedX speedY =
     \<lparr>st_startX = None, st_startY = None, st_endX = scaleX, st_endY = scaleY,
      st_speedX = speedX, st_speedY = speedY, st_distanceX = None, st_distanceY = None,
      st_started = False, st_stopped = False\<rparr>"

text \<open>The completion test of \<^verbatim>\<open>ScaleTo\<close> reads \<^verbatim>\<open>scale.y\<close> for both axes.\<close>

definition ScaleTo_isComplete :: "ScaleTo \<Rightarrow> Actor \<Rightarrow> bool" where
  "ScaleTo_isComplete s a =
     (st_stopped s \<or>
      (case (st_startX s, st_startY s, st_distanceX s, st_distanceY s) of
         (Some startX, Some startY, Some distanceX, Some distanceY) \<Rightarrow>
           covered (vec_y (scale a)) startX distanceX \<and>
           covered (vec_y (scale a)) startY distanceY
       | _ \<Rightarrow> False))"

text \<open>The block of \<^verbatim>\<open>ScaleTo.update\<close> that runs when the behaviour has not started.\<close>

definition ScaleTo_begin :: "ScaleTo \<Rightarrow> Actor \<Rightarrow> ScaleTo" where
  "ScaleTo_begin s a =
     s\<lparr>st_started := True,
       st_startX := Some (vec_x (scale a)),
       st_startY := Some (vec_y (scale a)),
       st_distanceX := Some \<bar>st_endX s - vec_x (scale a)\<bar>,
       st_distanceY := Some \<bar>st_endY s - vec_y (scale a)\<bar>\<rparr>"

definition ScaleTo_update :: "real \<Rightarrow> ScaleTo \<times> Actor \<Rightarrow> error + ScaleTo \<times> Actor" where
  "ScaleTo_update delta = (\<lambda>(s0, a0).
     let s1 = (if \<not> st_started s0 then ScaleTo_begin s0 a0 else s0)
     in case (st_startX s1, st_startY s1, st_distanceX s1, st_distanceY s1) of
          (Some startX, Some startY, Some distanceX, Some distanceY) \<Rightarrow>
            let a1 = (if \<not> covered (vec_x (scale a0)) startX distanceX
                      then (let directionX = (if st_endY s1 < startY then -1 else 1)
                            in a0\<lparr>sx := st_speedX s1 * directionX\<rparr>)
                      else a0\<lparr>sx := 0\<rparr>);
                a2 = (if \<not> covered (vec_y (scale a1)) startY distanceY
                      then (let directionY = (if st_endY s1 < startY then -1 else 1)
                            in a1\<lparr>sy := st_speedY s1 * directionY\<rparr>)
                      else a1\<lparr>sy := 0\<rparr>)
            in if ScaleTo_isComplete s1 a2
               then Inr (s1, a2\<lparr>scale := vec (st_endX s1) (st_endY s1), sx := 0, sy := 0\<rparr>)
               else Inr (s1, a2)
        | _ \<Rightarrow> Inl UndefinedRead)"

definition ScaleTo_stop :: "ScaleTo \<times> Actor \<Rightarrow> ScaleTo \<times> Actor" where
  "ScaleTo_stop = (\<lambda>(s, a). (s\<lparr>st_stopped := True\<rparr>, a\<lparr>sx := 0, sy := 0\<rparr>))"

definition ScaleTo_reset :: "ScaleTo \<Rightarrow> ScaleTo" where
  "ScaleTo_reset s = s\<lparr>st_started := False\<rparr>"

record ScaleBy =
  sb_startScale :: "Vector option"
  sb_endScale :: "Vector option"
  sb_offset :: Vector
  sb_distanceX :: "real option"
  sb_distanceY :: "real option"
  sb_directionX :: "real option"
  sb_directionY :: "real option"
  sb_started :: bool
  sb_stopped :: bool
  sb_speedX :: real
  sb_speedY :: real

definition ScaleBy_new :: "real \<Rightarrow> real \<Rightarrow> real \<Rightarrow> ScaleBy" where
  "ScaleBy_new scaleOffsetX scaleOffsetY speed =
     \<lparr>sb_startScale = None, sb_endScale = None, sb_offset = vec scaleOffsetX scaleOffsetY,
      sb_distanceX = None, sb_distanceY = None, sb_directionX = None, sb_directionY = None,
      sb_started = False, sb_stopped = False, sb_speedX = speed, sb_speedY = speed\<rparr>"

definition ScaleBy_isComplete :: "ScaleBy \<Rightarrow> Actor \<Rightarrow> bool" where
  "ScaleBy_isComplete s a =
     (sb_stopped s \<or>
      (case (sb_startScale s, sb_distanceX s, sb_distanceY s) of
         (Some startScale, Some distanceX, Some distanceY) \<Rightarrow>
           covered (vec_x (scale a)) (vec_x startScale) distanceX \<and>
           covered (vec_y (scale a)) (vec_y startScale) distanceY
       | _ \<Rightarrow> False))"

text \<open>The block of \<^verbatim>\<open>ScaleBy.update\<close> that runs when the behaviour has not started.\<close>

definition ScaleBy_begin :: "ScaleBy \<Rightarrow> Actor \<Rightarrow> ScaleBy" where
  "ScaleBy_begin s a =
     (let startScale = scale a;
          endScale = add startScale (sb_offset s)
      in s\<lparr>sb_started := True,
            sb_startScale := Some startScale, sb_endScale := Some endScale,
            sb_distanceX := Some \<bar>vec_x endScale - vec_x startScale\<bar>,
            sb_distanceY := Some \<bar>vec_y endScale - vec_y startScale\<bar>,
            sb_directionX := Some (if vec_x endScale < vec_x startScale then -1 else 1),
            sb_directionY := Some (if vec_y endScale < vec_y startScale then -1 else 1)\<rparr>)"

definition ScaleBy_update :: "real \<Rightarrow> ScaleBy \<times> Actor \<Rightarrow> error + ScaleBy \<times> Actor" where
  "ScaleBy_update delta = (\<lambda>(s0, a0).
     let s1 = (if \<not> sb_started s0 then ScaleBy_begin s0 a0 else s0)
     in case (sb_directionX s1, sb_directionY s1, sb_endScale s1) of
          (Some directionX, Some directionY, Some endScale) \<Rightarrow>
            let a1 = a0\<lparr>sx := sb_speedX s1 * directionX, sy := sb_speedY s1 * directionY\<rparr>
            in if ScaleBy_isComplete s1 a1
               then Inr (s1, a1\<lparr>scale := endScale, sx := 0, sy := 0\<rparr>)
               else Inr (s1, a1)
        | _ \<Rightarrow> Inl UndefinedRead)"

definition ScaleBy_stop :: "ScaleBy \<times> Actor \<Rightarrow> ScaleBy \<times> Actor" where
  "ScaleBy_stop = (\<lambda>(s, a). (s\<lparr>sb_stopped := True\<rparr>, a\<lparr>sx := 0, sy := 0\<rparr>))"

definition ScaleBy_reset :: "ScaleBy \<Rightarrow> ScaleBy" where
  "ScaleBy_reset s = s\<lparr>sb_started := False\<rparr>"

section \<open>Delay, Blink, Fade and CallMethod\<close>

record Delay =
  dl_x :: "real option"
  dl_y :: "real option"
  dl_elapsedTime :: real
  dl_delay :: real
  dl_started :: bool
  dl_stopped :: bool

definition Delay_new :: "real \<Rightarrow> Delay" where
  "Delay_new delay =
     \<lparr>dl_x = None, dl_y = None, dl_elapsedTime = 0, dl_delay = delay,
      dl_started = False, dl_stopped = False\<rparr>"

definition Delay_update :: "real \<Rightarrow> Delay \<times> Actor \<Rightarrow> error + Delay \<times> Actor" where
  "Delay_update delta = (\<lambda>(d0, a0).
     let d1 = (if \<not> dl_started d0 then d0\<lparr>dl_started := True\<rparr> else d0)
     in Inr (d1\<lparr>dl_x := Some (vec_x (pos a0)), dl_y := Some (vec_y (pos a0)),
                 dl_elapsedTime := dl_elapsedTime d1 + delta\<rparr>, a0))"

definition Delay_isComplete :: "Delay \<Rightarrow> bool" where
  "Delay_isComplete d = (dl_stopped d \<or> dl_elapsedTime d \<ge> dl_delay d)"

definition Delay_stop :: "Delay \<times> Actor \<Rightarrow> Delay \<times> Actor" where
  "Delay_stop = (\<lambda>(d, a). (d\<lparr>dl_stopped := True\<rparr>, a))"

definition Delay_reset :: "Delay \<Rightarrow> Delay" where
  "Delay_reset d = d\<lparr>dl_elapsedTime := 0, dl_started := False\<rparr>"

record Blink =
  bl_timeVisible :: real
  bl_timeNotVisible :: real
  bl_elapsedTime :: real
  bl_totalTime :: real
  bl_duration :: real
  bl_stopped :: bool
  bl_started :: bool

definition Blink_new :: "real \<Rightarrow> real \<Rightarrow> real option \<Rightarrow> Blink" where
  "Blink_new timeVisible timeNotVisible numBlinks =
     \<lparr>bl_timeVisible = timeVisible, bl_timeNotVisible = timeNotVisible,
      bl_elapsedTime = 0, bl_totalTime = 0,
      bl_duration = (timeVisible + timeNotVisible) * (case numBlinks of None \<Rightarrow> 1 | Some n \<Rightarrow> n),
      bl_stopped = False, bl_started = False\<rparr>"

definition Blink_isComplete :: "Blink \<Rightarrow> bool" where
  "Blink_isComplete b = (bl_stopped b \<or> bl_totalTime b \<ge> bl_duration b)"

definition Blink_update :: "real \<Rightarrow> Blink \<times> Actor \<Rightarrow> error + Blink \<times> Actor" where
  "Blink_update delta = (\<lambda>(b0, a0).
     let b1 = (if \<not> bl_started b0 then b0\<lparr>bl_started := True\<rparr> else b0);
         b2 = b1\<lparr>bl_elapsedTime := bl_elapsedTime b1 + delta,
                 bl_totalTime := bl_totalTime b1 + delta\<rparr>;
         turn_off = (visible a0 \<and> bl_elapsedTime b2 \<ge> bl_timeVisible b2);
         a1 = (if turn_off then a0\<lparr>visible := False\<rparr> else a0);
         b3 = (if turn_off then b2\<lparr>bl_elapsedTime := 0\<rparr> else b2);
         turn_on = (\<not> visible a1 \<and> bl_elapsedTime b3 \<ge> bl_timeNotVisible b3);
         a2 = (if turn_on then a1\<lparr>visible := True\<rparr> else a1);
         b4 = (if turn_on then b3\<lparr>bl_elapsedTime := 0\<rparr> else b3)
     in if Blink_isComplete b4 then Inr (b4, a2\<lparr>visible := True\<rparr>) else Inr (b4, a2))"

definition Blink_stop :: "Blink \<times> Actor \<Rightarrow> Blink \<times> Actor" where
  "Blink_stop = (\<lambda>(b, a). (b\<lparr>bl_stopped := True\<rparr>, a\<lparr>visible := True\<rparr>))"

definition Blink_reset :: "Blink \<Rightarrow> Blink" where
  "Blink_reset b = b\<lparr>bl_started := False, bl_elapsedTime := 0, bl_totalTime := 0\<rparr>"

record Fade =
  fd_endOpacity :: real
  fd_speed :: real
  fd_multiplier :: real
  fd_started :: bool
  fd_stopped :: bool

definition Fade_new :: "real \<Rightarrow> real \<Rightarrow> Fade" where
  "Fade_new endOpacity speed =
     \<lparr>fd_endOpacity = endOpacity, fd_speed = speed, fd_multiplier = 1,
      fd_started = False, fd_stopped = False\<rparr>"

definition Fade_isComplete :: "Fade \<Rightarrow> Actor \<Rightarrow> bool" where
  "Fade_isComplete f a = (fd_stopped f \<or> \<bar>opacity a - fd_endOpacity f\<bar> < 0.05)"

text \<open>The block of \<^verbatim>\<open>Fade.update\<close> that runs when the behaviour has not started.\<close>

definition Fade_begin :: "Fade \<Rightarrow> Actor \<Rightarrow> Fade" where
  "Fade_begin f a =
     f\<lparr>fd_started := True,
       fd_multiplier := (if fd_endOpacity f < opacity a then -1 else 1)\<rparr>"

definition Fade_update :: "real \<Rightarrow> Fade \<times> Actor \<Rightarrow> error + Fade \<times> Actor" where
  "Fade_update delta = (\<lambda>(f0, a0).
     let f1 = (if \<not> fd_started f0 then Fade_begin f0 a0 else f0);
         a1 = (if fd_speed f1 > 0
               then a0\<lparr>opacity := opacity a0 +
                      (fd_multiplier f1 * (\<bar>opacity a0 - fd_endOpacity f1\<bar> * delta)) / fd_speed f1\<rparr>
               else a0);
         f2 = f1\<lparr>fd_speed := fd_speed f1 - delta\<rparr>
     in if Fade_isComplete f2 a1
        then Inr (f2, a1\<lparr>opacity := fd_endOpacity f2\<rparr>)
        else Inr (f2, a1))"

definition Fade_stop :: "Fade \<times> Actor \<Rightarrow> Fade \<times> Actor" where
  "Fade_stop = (\<lambda>(f, a). (f\<lparr>fd_stopped := True\<rparr>, a))"

definition Fade_reset :: "Fade \<Rightarrow> Fade" where
  "Fade_reset f = f\<lparr>fd_started := False\<rparr>"

text \<open>
  The callback of \<^verbatim>\<open>CallMethod\<close> is called with the actor as \<^verbatim>\<open>this\<close>; it is modelled
  as a function on the fields of the actor.  A callback that reaches other objects
  through the actor, such as one that calls \<^verbatim>\<open>clearActions\<close>, \<^verbatim>\<open>add\<close> or \<^verbatim>\<open>remove\<close> on
  the queue of the actor, is not such a function, and no result below speaks of it.
\<close>

record CallMethod =
  cm_method :: "Actor \<Rightarrow> Actor"
  cm_hasBeenCalled :: bool

definition CallMethod_new :: "(Actor \<Rightarrow> Actor) \<Rightarrow> CallMethod" where
  "CallMethod_new method = \<lparr>cm_method = method, cm_hasBeenCalled = False\<rparr>"

definition CallMethod_update ::
  "real \<Rightarrow> CallMethod \<times> Actor \<Rightarrow> error + CallMethod \<times> Actor" where
  "CallMethod_update delta = (\<lambda>(c, a). Inr (c\<lparr>cm_hasBeenCalled := True\<rparr>, cm_method c a))"

definition CallMethod_isComplete :: "CallMethod \<Rightarrow> bool" where
  "CallMethod_isComplete c = cm_hasBeenCalled c"

definition CallMethod_reset :: "CallMethod \<Rightarrow> CallMethod" where
  "CallMethod_reset c = c\<lparr>cm_hasBeenCalled := False\<rparr>"

definition CallMethod_stop :: "CallMethod \<times> Actor \<Rightarrow> CallMethod \<times> Actor" where
  "CallMethod_stop = (\<lambda>(c, a). (c\<lparr>cm_hasBeenCalled := True\<rparr>, a))"

section \<open>The Action interface\<close>

text \<open>
  The classes above implement the interface \<^verbatim>\<open>Action\<close>; a value of the datatype below is
  one object of one of them, and the four functions dispatch as the method calls of the
  source do.  Every behaviour is bound to one actor, the actor of the queue that holds it,
  as the action context of the engine constructs them; so the \<^verbatim>\<open>_actor\<close> of a behaviour
  and the actor that the queue passes to \<^verbatim>\<open>isComplete\<close> are the same.  The behaviours
  that need a second actor or a queue of their own (\<^verbatim>\<open>Follow\<close>, \<^verbatim>\<open>Meet\<close>, \<^verbatim>\<open>Repeat\<close>,
  \<^verbatim>\<open>RepeatForever\<close>) are not part of this development.  \<^verbatim>\<open>Die\<close>, whose \<^verbatim>\<open>update\<close>
  reaches the queue of the actor, follows with the queue.
\<close>

datatype Action =
  AEaseTo EaseTo
| AMoveTo MoveTo
| AMoveBy MoveBy
| ARotateTo RotateTo
| ARotateBy RotateBy
| AScaleTo ScaleTo
| AScaleBy ScaleBy
| ADelay Delay
| ABlink Blink
| AFade Fade
| ACallMethod CallMethod

definition lift_result ::
  "('s \<Rightarrow> Action) \<Rightarrow> error + 's \<times> Actor \<Rightarrow> error + Action \<times> Actor" where
  "lift_result C r = (case r of Inl e \<Rightarrow> Inl e | Inr (s, a) \<Rightarrow> Inr (C s, a))"

fun update :: "real \<Rightarrow> Action \<times> Actor \<Rightarrow> error + Action \<times> Actor" where
  "update delta (AEaseTo s, a) = lift_result AEaseTo (EaseTo_update delta (s, a))"
| "update delta (AMoveTo s, a) = lift_result AMoveTo (MoveTo_update delta (s, a))"
| "update delta (AMoveBy s, a) = lift_result AMoveBy (MoveBy_update delta (s, a))"
| "update delta (ARotateTo s, a) = lift_result ARotateTo (RotateTo_update delta (s, a))"
| "update delta (ARotateBy s, a) = lift_result ARotateBy (RotateBy_update delta (s, a))"
| "update delta (AScaleTo s, a) = lift_result AScaleTo (ScaleTo_update delta (s, a))"
| "update delta (AScaleBy s, a) = lift_result AScaleBy (ScaleBy_update delta (s, a))"
| "update delta (ADelay s, a) = lift_result ADelay (Delay_update delta (s, a))"
| "update delta (ABlink s, a) = lift_result ABlink (Blink_update delta (s, a))"
| "update delta (AFade s, a) = lift_result AFade (Fade_update delta (s, a))"
| "update delta (ACallMethod s, a) = lift_result ACallMethod (CallMethod_update delta (s, a))"

fun isComplete :: "Action \<Rightarrow> Actor \<Rightarrow> bool" where
  "isComplete (AEaseTo s) a = EaseTo_isComplete s a"
| "isComplete (AMoveTo s) a = MoveTo_isComplete s a"
| "isComplete (AMoveBy s) a = MoveBy_isComplete s a"
| "isComplete (ARotateTo s) a = RotateTo_isComplete s"
| "isComplete (ARotateBy s) a = RotateBy_isComplete s"
| "isComplete (AScaleTo s) a = ScaleTo_isComplete s a"
| "isComplete (AScaleBy s) a = ScaleBy_isComplete s a"
| "isComplete (ADelay s) a = Delay_isComplete s"
| "isComplete (ABlink s) a = Blink_isComplete s"
| "isComplete (AFade s) a = Fade_isComplete s a"
| "isComplete (ACallMethod s) a = CallMethod_isComplete s"

fun reset :: "Action \<Rightarrow> Action" where
  "reset (AEaseTo s) = AEaseTo (EaseTo_reset s)"
| "reset (AMoveTo s) = AMoveTo (MoveTo_reset s)"
| "reset (AMoveBy s) = AMoveBy (MoveBy_reset s)"
| "reset (ARotateTo s) = ARotateTo (RotateTo_reset s)"
| "reset (ARotateBy s) = ARotateBy (RotateBy_reset s)"
| "reset (AScaleTo s) = AScaleTo (ScaleTo_reset s)"
| "reset (AScaleBy s) = AScaleBy (ScaleBy_reset s)"
| "reset (ADelay s) = ADelay (Delay_reset s)"
| "reset (ABlink s) = ABlink (Blink_reset s)"
| "reset (AFade s) = AFade (Fade_reset s)"
| "reset (ACallMethod s) = ACallMethod (CallMethod_reset s)"

definition lift_pair :: "('s \<Rightarrow> Action) \<Rightarrow> 's \<times> Actor \<Rightarrow> Action \<times> Actor" where
  "lift_pair C = (\<lambda>(s, a). (C s, a))"

fun stop :: "Action \<times> Actor \<Rightarrow> Action \<times> Actor" where
  "stop (AEaseTo s, a) = lift_pair AEaseTo (EaseTo_stop (s, a))"
| "stop (AMoveTo s, a) = lift_pair AMoveTo (MoveTo_stop (s, a))"
| "stop (AMoveBy s, a) = lift_pair AMoveBy (MoveBy_stop (s, a))"
| "stop (ARotateTo s, a) = lift_pair ARotateTo (RotateTo_stop (s, a))"
| "stop (ARotateBy s, a) = lift_pair ARotateBy (RotateBy_stop (s, a))"
| "stop (AScaleTo s, a) = lift_pair AScaleTo (ScaleTo_stop (s, a))"
| "stop (AScaleBy s, a) = lift_pair AScaleBy (ScaleBy_stop (s, a))"
| "stop (ADelay s, a) = lift_pair ADelay (Delay_stop (s, a))"
| "stop (ABlink s, a) = lift_pair ABlink (Blink_stop (s, a))"
| "stop (AFade s, a) = lift_pair AFade (Fade_stop (s, a))"
| "stop (ACallMethod s, a) = lift_pair ACallMethod (CallMethod_stop (s, a))"

section \<open>ActionQueue and Die\<close>

text \<open>
  The queue holds references to action objects, and \<^verbatim>\<open>indexOf\<close> compares references.
  A reference is a number.  The same reference may be in a queue twice.  The pending
  list \<^verbatim>\<open>_actions\<close> holds references; the completed list can also hold \<^verbatim>\<open>undefined\<close>
  (\<^term>\<open>None\<close>), which \<^verbatim>\<open>update\<close> pushes when \<^verbatim>\<open>shift\<close> finds the pending list empty.
\<close>

type_synonym ref = nat

record ActionQueue =
  aq_actions :: "ref list"
  aq_currentAction :: "ref option"
  aq_completedActions :: "ref option list"


text \<open>\<^verbatim>\<open>Array.prototype.indexOf\<close>: the first index of the element, or \<open>-1\<close>.\<close>

fun indexOf :: "ref list \<Rightarrow> ref \<Rightarrow> int" where
  "indexOf [] a = -1"
| "indexOf (b # bs) a =
     (if b = a then 0 else (let i = indexOf bs a in if i < 0 then -1 else i + 1))"

text \<open>
  \<^verbatim>\<open>Array.prototype.splice(start, deleteCount)\<close> with no inserted items: a negative
  start counts from the end of the array, and both arguments are clamped to the array.
\<close>

definition splice :: "int \<Rightarrow> int \<Rightarrow> 'a list \<Rightarrow> 'a list" where
  "splice start deleteCount xs =
     (let len = int (length xs);
          actualStart = (if start < 0 then max (len + start) 0 else min start len);
          actualDeleteCount = min (max deleteCount 0) (len - actualStart)
      in take (nat actualStart) xs @ drop (nat (actualStart + actualDeleteCount)) xs)"


definition ActionQueue_remove :: "ActionQueue \<Rightarrow> ref \<Rightarrow> ActionQueue" where
  "ActionQueue_remove q action =
     (let index = indexOf (aq_actions q) action
      in q\<lparr>aq_actions := splice index 1 (aq_actions q)\<rparr>)"


definition ActionQueue_hasNext :: "ActionQueue \<Rightarrow> bool" where
  "ActionQueue_hasNext q = (length (aq_actions q) > 0)"

text \<open>
  \<^verbatim>\<open>Die\<close> has one field of its own, \<^verbatim>\<open>_stopped\<close>.  The objects that a queue holds are
  the behaviours of the interface above, whose \<^verbatim>\<open>update\<close> touches the behaviour and the
  fields of the actor only, and \<^verbatim>\<open>Die\<close>, whose \<^verbatim>\<open>update\<close> clears the queue of the actor
  and kills the actor.
\<close>

record Die =
  die_stopped :: bool


definition Die_isComplete :: "Die \<Rightarrow> bool" where
  "Die_isComplete d = die_stopped d"

datatype QueuedAction = Act Action | ADie Die

fun queued_isComplete :: "QueuedAction \<Rightarrow> Actor \<Rightarrow> bool" where
  "queued_isComplete (Act x) actor = isComplete x actor"
| "queued_isComplete (ADie d) actor = Die_isComplete d"


fun queued_stop :: "QueuedAction \<times> Actor \<Rightarrow> QueuedAction \<times> Actor" where
  "queued_stop (Act x, a) = (case stop (x, a) of (x', a') \<Rightarrow> (Act x', a'))"
| "queued_stop (ADie d, a) = (ADie d, a)"

text \<open>
  The world is the actor of the queue, the store that gives every reference its
  object, and whether the actor has been killed.  The queue that is ticked is the queue
  of that actor, \<^verbatim>\<open>actor.actionQueue\<close>.
\<close>

text \<open>
  Modelled from the spec: \<^verbatim>\<open>Actor.kill\<close> of \<^verbatim>\<open>Actor.ts\<close>, which is not among the sources
  and which signals the removal of the actor; it is the assignment of \<^term>\<open>True\<close> to the
  field \<open>w_killed\<close>.
\<close>

record World =
  w_actor :: Actor
  w_killed :: bool
  w_objs :: "ref \<Rightarrow> QueuedAction"

definition ActionQueue_clearActions :: "ActionQueue \<times> World \<Rightarrow> ActionQueue \<times> World" where
  "ActionQueue_clearActions = (\<lambda>(q, w).
     let q1 = q\<lparr>aq_actions := [], aq_completedActions := []\<rparr>
     in case aq_currentAction q1 of
          None \<Rightarrow> (q1, w)
        | Some r \<Rightarrow>
            (let (o1, a1) = queued_stop (w_objs w r, w_actor w)
             in (q1, w\<lparr>w_actor := a1, w_objs := (w_objs w)(r := o1)\<rparr>)))"

text \<open>
  \<^verbatim>\<open>Die.update\<close> on the object at the reference \<open>this\<close>: clear the queue of the actor,
  kill the actor, set \<^verbatim>\<open>_stopped\<close>.
\<close>

definition Die_update :: "real \<Rightarrow> ref \<Rightarrow> ActionQueue \<times> World \<Rightarrow> ActionQueue \<times> World" where
  "Die_update delta this = (\<lambda>(q, w).
     let (q1, w1) = ActionQueue_clearActions (q, w);
         w2 = w1\<lparr>w_killed := True\<rparr>
     in (q1, w2\<lparr>w_objs := (w_objs w2)
                 (this := (case w_objs w2 this of
                             ADie d \<Rightarrow> ADie (d\<lparr>die_stopped := True\<rparr>)
                           | Act x \<Rightarrow> Act x))\<rparr>))"

text \<open>The call \<^verbatim>\<open>update(delta)\<close> on the object at a reference, by its class.\<close>

definition queued_update ::
  "real \<Rightarrow> ref \<Rightarrow> ActionQueue \<times> World \<Rightarrow> error + ActionQueue \<times> World" where
  "queued_update delta r = (\<lambda>(q, w).
     case w_objs w r of
       Act x \<Rightarrow>
         (case update delta (x, w_actor w) of
            Inl e \<Rightarrow> Inl e
          | Inr (x1, a1) \<Rightarrow> Inr (q, w\<lparr>w_actor := a1, w_objs := (w_objs w)(r := Act x1)\<rparr>))
     | ADie d \<Rightarrow> Inr (Die_update delta r (q, w)))"



text \<open>
  \<^verbatim>\<open>ActionQueue.update\<close>: the head becomes the current action and is updated; when it
  is complete then, what \<^verbatim>\<open>shift\<close> takes from the pending list as the update has left
  it (\<^verbatim>\<open>undefined\<close> when it is empty) is pushed onto the completed list.
\<close>

definition ActionQueue_update ::
  "real \<Rightarrow> ActionQueue \<times> World \<Rightarrow> error + ActionQueue \<times> World" where
  "ActionQueue_update delta = (\<lambda>(q, w).
     case aq_actions q of
       [] \<Rightarrow> Inr (q, w)
     | r # rest \<Rightarrow>
         (case queued_update delta r (q\<lparr>aq_currentAction := Some r\<rparr>, w) of
            Inl e \<Rightarrow> Inl e
          | Inr (q1, w1) \<Rightarrow>
              if queued_isComplete (w_objs w1 r) (w_actor w1)
              then Inr (q1\<lparr>aq_actions := tl (aq_actions q1),
                           aq_completedActions := aq_completedActions q1 @
                             [case aq_actions q1 of [] \<Rightarrow> None | x # xs \<Rightarrow> Some x]\<rparr>, w1)
              else Inr (q1, w1)))"







text \<open>
  The actor that the tests of \<^verbatim>\<open>ActionSpec.ts\<close> start from: at the origin, at rest,
  unrotated, at scale one, opaque and visible.
\<close>

definition Actor_new :: Actor where
  "Actor_new =
     \<lparr>pos = vec 0 0, vel = vec 0 0, rotation = 0, rx = 0, scale = vec 1 1, sx = 0, sy = 0,
      opacity = 1, visible = True\<rparr>"



section \<open>Ticking one behaviour\<close>

text \<open>
  One behaviour updated once for each elapsed time of a list, stopping at the first error.
\<close>

fun run_updates :: "(real \<Rightarrow> 's \<Rightarrow> error + 's) \<Rightarrow> real list \<Rightarrow> 's \<Rightarrow> error + 's" where
  "run_updates upd [] s = Inr s"
| "run_updates upd (d # ds) s =
     (case upd d s of Inl e \<Rightarrow> Inl e | Inr s' \<Rightarrow> run_updates upd ds s')"

text \<open>
  One behaviour in the frames of an engine: in each frame the behaviour is updated with
  the elapsed time, and then the rest of the engine acts on the actor (\<open>env\<close>).
\<close>

fun run_frames ::
  "(real \<Rightarrow> 's \<times> Actor \<Rightarrow> error + 's \<times> Actor) \<Rightarrow> (real \<Rightarrow> Actor \<Rightarrow> Actor) \<Rightarrow>
   real list \<Rightarrow> 's \<times> Actor \<Rightarrow> error + 's \<times> Actor" where
  "run_frames upd env [] s = Inr s"
| "run_frames upd env (d # ds) s =
     (case upd d s of
        Inl e \<Rightarrow> Inl e
      | Inr (s', a') \<Rightarrow> run_frames upd env ds (s', env d a'))"

text \<open>
  Modelled from the spec: the integrator of the target, which advances position,
  rotation and scale by their velocities (\<^verbatim>\<open>Actor.ts\<close> is not among the sources).  An
  explicit Euler step over \<open>delta\<close> milliseconds, as the expectations of
  \<^verbatim>\<open>ActionSpec.ts\<close> have it.
\<close>

definition integrate :: "real \<Rightarrow> Actor \<Rightarrow> Actor" where
  "integrate delta a =
     a\<lparr>pos := add (pos a) (scale_vec (vel a) (delta / 1000)),
       rotation := rotation a + rx a * (delta / 1000),
       scale := add (scale a) (vec (sx a * (delta / 1000)) (sy a * (delta / 1000)))\<rparr>"

text \<open>
  The run that the tests of \<^verbatim>\<open>rotateTo\<close> make: a \<^verbatim>\<open>RotateTo\<close> to the angle \<open>\<pi>/2\<close> at
  \<open>\<pi>/2\<close> per second, on a new actor, whose rotation is 0, ticked frame by frame.
\<close>

definition quarter_turn ::
  "(real \<Rightarrow> Actor \<Rightarrow> Actor) \<Rightarrow> RotationType \<Rightarrow> real list \<Rightarrow> error + RotateTo \<times> Actor" where
  "quarter_turn env mode ds =
     run_frames RotateTo_update env ds (RotateTo_new (pi / 2) (pi / 2) (Some mode), Actor_new)"

text \<open>What a call has left of the behaviour, if the call returned.\<close>

definition state_after :: "error + 's \<times> Actor \<Rightarrow> 's option" where
  "state_after r = (case r of Inl e \<Rightarrow> None | Inr (s, a) \<Rightarrow> Some s)"

text \<open>
  A started \<^verbatim>\<open>RotateTo\<close> that has been ticked for \<open>t\<close> milliseconds in all since it
  captured the start rotation \<open>s\<close> and selected the direction and the distance.
\<close>

definition RotateTo_running :: "real \<Rightarrow> real \<Rightarrow> real \<Rightarrow> real \<Rightarrow> RotateTo \<Rightarrow> bool" where
  "RotateTo_running s dir D t r =
     (rt_started r \<and> rt_start r = Some s \<and> rt_direction r = Some dir \<and>
      rt_distance r = Some D \<and>
      rt_currentNonCannonAngle r = Some (s + dir * rt_speed r * (t / 1000)))"

text \<open>
  What holds of a \<^verbatim>\<open>Fade\<close> to opacity 1 with speed 200 and of its actor after \<open>k\<close>
  ticks of 20 ms from opacity 0.
\<close>

definition fade_inv :: "nat \<Rightarrow> Fade \<times> Actor \<Rightarrow> bool" where
  "fade_inv k = (\<lambda>(f, a). fd_endOpacity f = 1 \<and> fd_multiplier f = 1 \<and> \<not> fd_stopped f \<and>
      fd_speed f = 200 - 20 * real k \<and> opacity a = (if k < 10 then real k / 10 else 1))"

text \<open>The actor that a call has left, if the call returned.\<close>

definition actor_after :: "error + 's \<times> Actor \<Rightarrow> Actor option" where
  "actor_after r = (case r of Inl e \<Rightarrow> None | Inr (s, a) \<Rightarrow> Some a)"

section \<open>Behaviours after stop and after completion\<close>

text \<open>
  The behaviours whose \<^verbatim>\<open>update\<close> ends with the test of \<^verbatim>\<open>isComplete\<close> or touches no
  velocity at all: every class of this development but \<^verbatim>\<open>EaseTo\<close>, whose \<^verbatim>\<open>update\<close>
  never consults \<^verbatim>\<open>isComplete\<close> or \<^verbatim>\<open>_stopped\<close>, and \<^verbatim>\<open>CallMethod\<close>, whose \<^verbatim>\<open>update\<close>
  calls the callback unconditionally.
\<close>

fun completes_in_update :: "Action \<Rightarrow> bool" where
  "completes_in_update (AEaseTo z) = False"
| "completes_in_update (ACallMethod c) = False"
| "completes_in_update s = True"

text \<open>
  A behaviour that has started has captured its baseline: the fields that the start
  block of its \<^verbatim>\<open>update\<close> assigns, and that the rest of \<^verbatim>\<open>update\<close> reads, are defined.
  Every constructor gives such a behaviour and every method keeps it so.
\<close>

fun captured :: "Action \<Rightarrow> bool" where
  "captured (AMoveTo m) = (mt_started m \<longrightarrow> mt_dir m \<noteq> None)"
| "captured (AMoveBy m) = (mb_started m \<longrightarrow> mb_dir m \<noteq> None \<and> mb_end m \<noteq> None)"
| "captured (ARotateTo r) =
     (rt_started r \<longrightarrow> rt_direction r \<noteq> None \<and> rt_currentNonCannonAngle r \<noteq> None)"
| "captured (ARotateBy r) =
     (rb_started r \<longrightarrow> rb_direction r \<noteq> None \<and> rb_currentNonCannonAngle r \<noteq> None \<and>
        rb_end r \<noteq> None)"
| "captured (AScaleTo s) =
     (st_started s \<longrightarrow> st_startX s \<noteq> None \<and> st_startY s \<noteq> None \<and>
        st_distanceX s \<noteq> None \<and> st_distanceY s \<noteq> None)"
| "captured (AScaleBy s) =
     (sb_started s \<longrightarrow> sb_directionX s \<noteq> None \<and> sb_directionY s \<noteq> None \<and>
        sb_endScale s \<noteq> None)"
| "captured s = True"

text \<open>
  Whether the update that left the behaviour complete has snapped the target: for
  \<^verbatim>\<open>EaseTo\<close> only when the timer has reached the duration, the one branch of its
  \<^verbatim>\<open>update\<close> that snaps; never for \<^verbatim>\<open>CallMethod\<close>.
\<close>

fun snaps_on_completion :: "Action \<Rightarrow> bool" where
  "snaps_on_completion (AEaseTo z) = (ez_lerpDuration z \<le> ez_currentLerpTime z)"
| "snaps_on_completion (ACallMethod c) = False"
| "snaps_on_completion s = True"

text \<open>
  A linear easing function and a callback, as a caller may pass them to \<^verbatim>\<open>EaseTo\<close> and
  to \<^verbatim>\<open>CallMethod\<close>.
\<close>

definition Linear :: "real \<Rightarrow> real \<Rightarrow> real \<Rightarrow> real \<Rightarrow> real" where
  "Linear currentTime startValue endValue duration =
     (endValue - startValue) * currentTime / duration + startValue"

definition spin_up :: "Actor \<Rightarrow> Actor" where
  "spin_up a = a\<lparr>rx := rx a + 1\<rparr>"

section \<open>Properties\<close>

text \<open>
  C8.  Constructing a \<^verbatim>\<open>MoveBy\<close> raises exactly when the speed is at most zero; when the
  speed is positive the construction succeeds and the behaviour holds the given speed
  unchanged.
\<close>

theorem MoveBy_new_error_iff:
  "(MoveBy_new offsetX offsetY speed = Inl SpeedError) = (speed \<le> 0) \<and>
   (\<exists>m. MoveBy_new offsetX offsetY speed = Inr m \<and> mb_speed m = speed) = (0 < speed)"
  by (auto simp: MoveBy_new_def)

subsection \<open>ActionQueue\<close>




lemma ActionQueue_update_empty:
  "aq_actions q = [] \<Longrightarrow> ActionQueue_update delta (q, w) = Inr (q, w)"
  by (simp add: ActionQueue_update_def)

lemma ActionQueue_update_Act:
  assumes "aq_actions q = r # rest" and "w_objs w r = Act x"
    and "update delta (x, w_actor w) = Inr (x1, a1)"
  shows "ActionQueue_update delta (q, w) =
     Inr (if isComplete x1 a1
          then q\<lparr>aq_currentAction := Some r, aq_actions := rest,
                 aq_completedActions := aq_completedActions q @ [Some r]\<rparr>
          else q\<lparr>aq_currentAction := Some r\<rparr>,
          w\<lparr>w_actor := a1, w_objs := (w_objs w)(r := Act x1)\<rparr>)"
  using assms by (simp add: ActionQueue_update_def queued_update_def)

lemma ActionQueue_update_Act_error:
  assumes "aq_actions q = r # rest" and "w_objs w r = Act x"
    and "update delta (x, w_actor w) = Inl e"
  shows "ActionQueue_update delta (q, w) = Inl e"
  using assms by (simp add: ActionQueue_update_def queued_update_def)

lemma ActionQueue_update_Die:
  assumes "aq_actions q = r # rest" and "w_objs w r = ADie d"
  shows "ActionQueue_update delta (q, w) =
     Inr (q\<lparr>aq_currentAction := Some r, aq_actions := [], aq_completedActions := [None]\<rparr>,
          w\<lparr>w_killed := True, w_objs := (w_objs w)(r := ADie (d\<lparr>die_stopped := True\<rparr>))\<rparr>)"
  using assms
  by (simp add: ActionQueue_update_def queued_update_def Die_update_def
      ActionQueue_clearActions_def Die_isComplete_def)

text \<open>
  Only the tick of a \<^verbatim>\<open>Die\<close> kills the actor: after a tick the actor is killed exactly
  when it was killed before or the head of the pending list was a \<^verbatim>\<open>Die\<close>.
\<close>

lemma killed_by_Die_only:
  assumes u: "ActionQueue_update delta (q, w) = Inr (q', w')"
  shows "w_killed w' =
     (w_killed w \<or> (\<exists>r rest d. aq_actions q = r # rest \<and> w_objs w r = ADie d))"
proof (cases "aq_actions q")
  case Nil
  with u show ?thesis by (simp add: ActionQueue_update_empty)
next
  case (Cons r rest)
  show ?thesis
  proof (cases "w_objs w r")
    case (ADie d)
    from u Cons ADie show ?thesis unfolding ActionQueue_update_Die[OF Cons ADie] by auto
  next
    case (Act x)
    show ?thesis
    proof (cases "update delta (x, w_actor w)")
      case (Inl e)
      with u ActionQueue_update_Act_error[OF Cons Act Inl] show ?thesis by simp
    next
      case (Inr p)
      obtain x1 a1 where p: "p = (x1, a1)" by (cases p)
      from u Cons Act show ?thesis
        unfolding ActionQueue_update_Act[OF Cons Act Inr[unfolded p]]
        by (auto split: if_splits)
    qed
  qed
qed











lemma indexOf_absent: "a \<notin> set xs \<Longrightarrow> indexOf xs a = -1"
  by (induction xs) (auto simp: Let_def)

lemma remove_absent:
  "a \<notin> set (aq_actions q) \<Longrightarrow> aq_actions (ActionQueue_remove q a) = butlast (aq_actions q)"
  by (cases "aq_actions q" rule: rev_cases)
    (auto simp: ActionQueue_remove_def indexOf_absent splice_def Let_def)

lemma splice_one_nat:
  assumes "n < length xs"
  shows "splice (int n) 1 xs = take n xs @ drop (Suc n) xs"
proof -
  have a: "min (int n) (int (length xs)) = int n" using assms by simp
  have b: "min (max 1 0) (int (length xs) - int n) = (1::int)" using assms by simp
  have c: "nat (int n + 1) = Suc n" by simp
  show ?thesis unfolding splice_def Let_def using a b c by simp
qed

lemma indexOf_present:
  "a \<in> set xs \<Longrightarrow>
   \<exists>n. indexOf xs a = int n \<and> n < length xs \<and> take n xs @ drop (Suc n) xs = remove1 a xs"
proof (induction xs)
  case Nil
  then show ?case by simp
next
  case (Cons b xs)
  show ?case
  proof (cases "b = a")
    case True
    then have "indexOf (b # xs) a = int 0" by simp
    with True show ?thesis by (intro exI[of _ 0]) simp
  next
    case False
    with Cons.prems have "a \<in> set xs" by simp
    from Cons.IH[OF this] obtain n where n: "indexOf xs a = int n" "n < length xs"
      "take n xs @ drop (Suc n) xs = remove1 a xs" by blast
    from False n(1) have "indexOf (b # xs) a = int (Suc n)" by (simp add: Let_def)
    with False n(2,3) show ?thesis by (intro exI[of _ "Suc n"]) simp
  qed
qed

lemma remove_present:
  assumes "a \<in> set (aq_actions q)"
  shows "aq_actions (ActionQueue_remove q a) = remove1 a (aq_actions q)"
proof -
  from indexOf_present[OF assms] obtain n where n: "indexOf (aq_actions q) a = int n"
    "n < length (aq_actions q)"
    "take n (aq_actions q) @ drop (Suc n) (aq_actions q) = remove1 a (aq_actions q)" by blast
  show ?thesis
    unfolding ActionQueue_remove_def Let_def n(1) using splice_one_nat[OF n(2)] n(3) by simp
qed

text \<open>
  C2.  The source passes the result of \<^verbatim>\<open>indexOf\<close> to \<^verbatim>\<open>splice\<close> unchecked.  For an
  action that is not in the queue that index is \<open>-1\<close>, and \<^verbatim>\<open>splice(-1, 1)\<close> removes the
  last element: removing the absent reference \<open>2\<close> from the pending list \<open>[0, 1]\<close>
  leaves \<open>[0]\<close>.
\<close>

theorem ActionQueue_remove_absent_drops_last:
  "aq_actions (ActionQueue_remove
     \<lparr>aq_actions = [0, 1], aq_currentAction = None, aq_completedActions = []\<rparr> 2) = [0]"
  by (simp add: ActionQueue_remove_def splice_def)



subsection \<open>ScaleTo\<close>

lemma ScaleTo_isComplete_Some:
  "st_startX s = Some startX \<Longrightarrow> st_startY s = Some startY \<Longrightarrow>
   st_distanceX s = Some distanceX \<Longrightarrow> st_distanceY s = Some distanceY \<Longrightarrow>
   ScaleTo_isComplete s a =
     (st_stopped s \<or> covered (vec_y (scale a)) startX distanceX \<and>
        covered (vec_y (scale a)) startY distanceY)"
  by (simp add: ScaleTo_isComplete_def)

lemma ScaleTo_update_fresh:
  "\<not> st_started s \<Longrightarrow> ScaleTo_update delta (s, a) = ScaleTo_update delta (ScaleTo_begin s a, a)"
  by (simp add: ScaleTo_update_def ScaleTo_begin_def)

lemma ScaleTo_update_started:
  assumes "st_started s" "st_startX s = Some startX" "st_startY s = Some startY"
    "st_distanceX s = Some distanceX" "st_distanceY s = Some distanceY"
  shows "ScaleTo_update delta (s, a) =
     (if ScaleTo_isComplete s a
      then Inr (s, a\<lparr>scale := vec (st_endX s) (st_endY s), sx := 0, sy := 0\<rparr>)
      else Inr (s, a\<lparr>sx := (if \<not> covered (vec_x (scale a)) startX distanceX
               then st_speedX s * (if st_endY s < startY then -1 else 1) else 0),
       sy := (if \<not> covered (vec_y (scale a)) startY distanceY
               then st_speedY s * (if st_endY s < startY then -1 else 1) else 0)\<rparr>))"
  using assms by (simp add: ScaleTo_update_def ScaleTo_isComplete_Some Let_def)

lemma ScaleTo_update_undefined:
  assumes "st_started s"
    and "st_startX s = None \<or> st_startY s = None \<or> st_distanceX s = None \<or> st_distanceY s = None"
  shows "ScaleTo_update delta (s, a) = Inl UndefinedRead"
  using assms by (auto simp: ScaleTo_update_def split: option.splits)

text \<open>
  C9.  Take any \<^verbatim>\<open>ScaleTo\<close> and any actor, let \<open>s1\<close> be the behaviour as its tick
  continues past the start block (the behaviour itself when it has started, otherwise
  with the start values captured from the actor), and suppose that the X axis has not
  covered its distance and the completion test fails.  Then the tick returns \<open>s1\<close>
  and the given actor with exactly two fields written: the X scale velocity is the X
  speed of the given behaviour times the sign of the comparison of \<^verbatim>\<open>_endY\<close> with
  \<^verbatim>\<open>_startY\<close>, the comparison of the Y axis, and the Y scale velocity is the Y speed
  times the same sign (or 0 when Y has covered its distance).  So when X must shrink
  and Y must grow the tick sets the X scale velocity to the positive X speed, and when
  X must grow and Y must shrink it sets the negative X speed.
\<close>

theorem ScaleTo_update_x_direction_from_y:
  assumes s1: "s1 = (if st_started s then s else ScaleTo_begin s a)"
    and sx: "st_startX s1 = Some startX" and sy: "st_startY s1 = Some startY"
    and dx: "st_distanceX s1 = Some distanceX" and dy: "st_distanceY s1 = Some distanceY"
    and nc: "\<not> covered (vec_x (scale a)) startX distanceX"
    and ni: "\<not> ScaleTo_isComplete s1 a"
  shows "ScaleTo_update delta (s, a) =
           Inr (s1, a\<lparr>sx := st_speedX s * (if st_endY s < startY then -1 else 1),
                       sy := (if \<not> covered (vec_y (scale a)) startY distanceY
                              then st_speedY s * (if st_endY s < startY then -1 else 1)
                              else 0)\<rparr>) \<and>
         (st_endX s < startX \<and> startY < st_endY s \<longrightarrow>
            map_option sx (actor_after (ScaleTo_update delta (s, a))) = Some (st_speedX s)) \<and>
         (startX < st_endX s \<and> st_endY s < startY \<longrightarrow>
            map_option sx (actor_after (ScaleTo_update delta (s, a))) = Some (- st_speedX s))"
proof -
  have st: "st_started s1" by (simp add: s1 ScaleTo_begin_def)
  have f: "st_speedX s1 = st_speedX s" "st_speedY s1 = st_speedY s" "st_endY s1 = st_endY s"
    by (simp_all add: s1 ScaleTo_begin_def)
  have u1: "ScaleTo_update delta (s, a) = ScaleTo_update delta (s1, a)"
    using ScaleTo_update_fresh[of s delta a] by (simp add: s1)
  have u: "ScaleTo_update delta (s, a) =
           Inr (s1, a\<lparr>sx := st_speedX s * (if st_endY s < startY then -1 else 1),
                       sy := (if \<not> covered (vec_y (scale a)) startY distanceY
                              then st_speedY s * (if st_endY s < startY then -1 else 1)
                              else 0)\<rparr>)"
    unfolding u1 ScaleTo_update_started[OF st sx sy dx dy] using ni nc by (simp add: f)
  show ?thesis unfolding u by (simp add: actor_after_def)
qed

theorem ScaleTo_update_x_direction_from_y_witness:
  "ScaleTo_update 16 (ScaleTo_new (1/2) 2 5 3, Actor_new) =
     Inr (ScaleTo_begin (ScaleTo_new (1/2) 2 5 3) Actor_new, Actor_new\<lparr>sx := 5, sy := 3\<rparr>) \<and>
   st_endX (ScaleTo_new (1/2) 2 5 3) < vec_x (scale Actor_new) \<and>
   vec_y (scale Actor_new) < st_endY (ScaleTo_new (1/2) 2 5 3) \<and>
   map_option sx (actor_after (ScaleTo_update 16 (ScaleTo_new (1/2) 2 5 3, Actor_new))) = Some 5"
proof -
  let ?s = "ScaleTo_new (1/2) 2 5 3"
  let ?s1 = "ScaleTo_begin ?s Actor_new"
  have h: "?s1 = (if st_started ?s then ?s else ScaleTo_begin ?s Actor_new)"
    "st_startX ?s1 = Some 1" "st_startY ?s1 = Some 1" "st_distanceX ?s1 = Some (1/2)"
    "st_distanceY ?s1 = Some 1"
    "\<not> covered (vec_x (scale Actor_new)) 1 (1/2)" "\<not> ScaleTo_isComplete ?s1 Actor_new"
    by (simp_all add: ScaleTo_begin_def ScaleTo_new_def Actor_new_def vec_def
        ScaleTo_isComplete_def covered_def)
  have c: "st_speedX ?s = 5" "st_speedY ?s = 3" "st_endX ?s = 1/2" "st_endY ?s = 2"
    "vec_x (scale Actor_new) = 1" "vec_y (scale Actor_new) = 1" "\<not> covered 1 1 1"
    by (simp_all add: ScaleTo_new_def Actor_new_def vec_def covered_def)
  from ScaleTo_update_x_direction_from_y[OF h, of 16] show ?thesis
    by (simp add: c actor_after_def)
qed

subsection \<open>Fade\<close>

lemma run_updates_append:
  "run_updates upd (ds @ es) s =
     (case run_updates upd ds s of Inl e \<Rightarrow> Inl e | Inr s' \<Rightarrow> run_updates upd es s')"
  by (induction ds arbitrary: s) (auto split: sum.splits)

lemma run_updates_snoc:
  "run_updates upd (replicate (Suc n) d) s =
     (case run_updates upd (replicate n d) s of Inl e \<Rightarrow> Inl e | Inr s' \<Rightarrow> upd d s')"
proof -
  have "replicate (Suc n) d = replicate n d @ [d]"
    by (simp add: replicate_append_same)
  then show ?thesis
    by (simp add: run_updates_append split: sum.splits)
qed

lemma Fade_update_result:
  "\<exists>f' a' o1. Fade_update delta (f, a) = Inr (f', a') \<and>
     fd_endOpacity f' = fd_endOpacity f \<and> fd_stopped f' = fd_stopped f \<and>
     fd_speed f' = fd_speed f - delta \<and>
     fd_multiplier f' = (if fd_started f then fd_multiplier f
                         else if fd_endOpacity f < opacity a then -1 else 1) \<and>
     o1 = (if fd_speed f > 0
           then opacity a + (fd_multiplier f' * (\<bar>opacity a - fd_endOpacity f\<bar> * delta)) / fd_speed f
           else opacity a) \<and>
     a' = a\<lparr>opacity := (if fd_stopped f \<or> \<bar>o1 - fd_endOpacity f\<bar> < 0.05 then fd_endOpacity f else o1)\<rparr>"
  by (simp add: Fade_update_def Fade_begin_def Fade_isComplete_def Let_def)

lemma fade_step:
  assumes "fade_inv k (f, a)"
  shows "\<exists>f' a'. Fade_update 20 (f, a) = Inr (f', a') \<and> fade_inv (Suc k) (f', a')"
proof -
  from assms have e: "fd_endOpacity f = 1" and m: "fd_multiplier f = 1" and ns: "\<not> fd_stopped f"
    and sp: "fd_speed f = 200 - 20 * real k"
    and op: "opacity a = (if k < 10 then real k / 10 else 1)"
    by (simp_all add: fade_inv_def)
  have le: "\<not> 1 < opacity a" using op by (simp split: if_splits)
  obtain f' a' o1 where u: "Fade_update 20 (f, a) = Inr (f', a')"
    and e': "fd_endOpacity f' = 1" and ns': "\<not> fd_stopped f'"
    and sp': "fd_speed f' = 200 - 20 * real k - 20"
    and m': "fd_multiplier f' = 1"
    and o1: "o1 = (if fd_speed f > 0
                 then opacity a + (fd_multiplier f' * (\<bar>opacity a - 1\<bar> * 20)) / fd_speed f
                 else opacity a)"
    and o': "opacity a' = (if \<bar>o1 - 1\<bar> < 0.05 then 1 else o1)"
    using Fade_update_result[of 20 f a] e m ns sp le by auto
  have "opacity a' = (if Suc k < 10 then real (Suc k) / 10 else 1)"
  proof (cases "k < 10")
    case True
    then have k: "real k < 10" by simp
    have v: "o1 = (real k + 1) / 10"
      unfolding o1 using True k by (simp add: op sp m' field_simps)
    show ?thesis
    proof (cases "k < 9")
      case True
      then have "real k + 1 \<le> 9" by simp
      then have "\<not> \<bar>o1 - 1\<bar> < 0.05" unfolding v by (simp add: abs_if field_simps)
      then have "opacity a' = o1" by (simp only: o' if_False)
      with True show ?thesis by (simp add: v add.commute)
    next
      case False
      with \<open>k < 10\<close> have "k = 9" by simp
      then have "o1 = 1" using v by simp
      then show ?thesis using \<open>k = 9\<close> by (simp add: o')
    qed
  next
    case False
    then have "o1 = 1" unfolding o1 by (simp add: sp op)
    with False show ?thesis by (simp add: o')
  qed
  with u e' ns' sp' m' show ?thesis by (simp add: fade_inv_def algebra_simps)
qed

lemma fade_run:
  assumes "fade_inv 0 s"
  shows "\<exists>s'. run_updates Fade_update (replicate n 20) s = Inr s' \<and> fade_inv n s'"
proof (induction n)
  case 0
  with assms show ?case by simp
next
  case (Suc n)
  then obtain f a where r: "run_updates Fade_update (replicate n 20) s = Inr (f, a)"
    and i: "fade_inv n (f, a)" by auto
  from fade_step[OF i] r show ?case unfolding run_updates_snoc by auto
qed

text \<open>
  C7.  A \<^verbatim>\<open>Fade\<close> to opacity 1 with speed 200, on an actor of opacity 0, ticked in steps
  of 20 ms: after \<open>n\<close> ticks the opacity is \<open>n / 10\<close> while \<open>n < 10\<close>, and exactly 1 from
  the tenth tick (200 ms) on; the behaviour is complete from the tenth tick on and not
  before.
\<close>

theorem Fade_reaches_one:
  "\<exists>f a. run_updates Fade_update (replicate n 20) (Fade_new 1 200, Actor_new\<lparr>opacity := 0\<rparr>)
      = Inr (f, a) \<and>
     opacity a = (if n < 10 then real n / 10 else 1) \<and>
     Fade_isComplete f a = (10 \<le> n)"
proof -
  have "fade_inv 0 (Fade_new 1 200, Actor_new\<lparr>opacity := 0\<rparr>)"
    by (simp add: fade_inv_def Fade_new_def)
  from fade_run[OF this, of n] obtain f a where
    r: "run_updates Fade_update (replicate n 20) (Fade_new 1 200, Actor_new\<lparr>opacity := 0\<rparr>)
      = Inr (f, a)" and i: "fade_inv n (f, a)" by auto
  have c: "Fade_isComplete f a = (10 \<le> n)"
  proof (cases "n < 10")
    case True
    then have "real n \<le> 9" by simp
    then have "\<not> \<bar>real n / 10 - 1\<bar> < 0.05" by (simp add: abs_if field_simps)
    with True i show ?thesis by (simp add: fade_inv_def Fade_isComplete_def)
  next
    case False
    with i show ?thesis by (simp add: fade_inv_def Fade_isComplete_def)
  qed
  from r i c show ?thesis by (simp add: fade_inv_def)
qed


subsection \<open>RotateTo and RotateBy\<close>

lemma js_rem_five_quarter: "js_rem (5 * pi / 2) (2 * pi) = pi / 2"
proof -
  have q: "(5 * pi / 2) / (2 * pi) = 5 / 4" by (simp add: field_simps)
  have t: "js_trunc (5 / 4) = 1" by (simp add: js_trunc_def)
  show ?thesis unfolding js_rem_def q t by (simp add: field_simps)
qed

lemma js_rem_three_quarter: "js_rem (3 * pi / 2) (2 * pi) = 3 * pi / 2"
proof -
  have q: "(3 * pi / 2) / (2 * pi) = 3 / 4" by (simp add: field_simps)
  have t: "js_trunc (3 / 4) = 0" by (simp add: js_trunc_def)
  show ?thesis unfolding js_rem_def q t by (simp add: field_simps)
qed

lemma RotateBy_begin_agrees_on_shortest_and_longest:
  assumes "t = ShortestPath \<or> t = LongestPath"
  shows "rb_distance (RotateBy_begin (RotateBy_new offset speed (Some t)) a) =
           rt_distance (RotateTo_begin (RotateTo_new (rotation a + offset) speed (Some t)) a) \<and>
         rb_direction (RotateBy_begin (RotateBy_new offset speed (Some t)) a) =
           rt_direction (RotateTo_begin (RotateTo_new (rotation a + offset) speed (Some t)) a)"
  using assms
  by (auto simp: RotateTo_begin_def RotateTo_new_def RotateBy_begin_def RotateBy_new_def Let_def)

text \<open>
  C3.  \<^verbatim>\<open>RotateBy\<close> chooses the distance of the modes \<^verbatim>\<open>Clockwise\<close> and
  \<^verbatim>\<open>CounterClockwise\<close> by the sign of \<^verbatim>\<open>_shortDistance\<close>, where \<^verbatim>\<open>RotateTo\<close> uses
  \<^verbatim>\<open>_shortestPathIsPositive\<close>.  From rotation 0 with offset \<open>-\<pi>/2\<close>, speed \<open>\<pi>/2\<close> and
  mode \<^verbatim>\<open>Clockwise\<close>, \<^verbatim>\<open>RotateTo\<close> to \<open>-\<pi>/2\<close> selects the distance \<open>3\<pi>/2\<close> and is still
  turning after a tick of one second, while \<^verbatim>\<open>RotateBy\<close> selects \<open>\<pi>/2\<close>, and after the
  same tick has stopped and set the rotation to \<open>-\<pi>/2\<close>.
\<close>

theorem RotateBy_differs_from_RotateTo_clockwise:
  "rt_distance (RotateTo_begin (RotateTo_new (- pi / 2) (pi / 2) (Some Clockwise)) Actor_new)
     = Some (3 * pi / 2) \<and>
   rb_distance (RotateBy_begin (RotateBy_new (- pi / 2) (pi / 2) (Some Clockwise)) Actor_new)
     = Some (pi / 2) \<and>
   map_option rx (actor_after
     (RotateTo_update 1000 (RotateTo_new (- pi / 2) (pi / 2) (Some Clockwise), Actor_new)))
     = Some (pi / 2) \<and>
   map_option rx (actor_after
     (RotateBy_update 1000 (RotateBy_new (- pi / 2) (pi / 2) (Some Clockwise), Actor_new)))
     = Some 0 \<and>
   map_option rotation (actor_after
     (RotateBy_update 1000 (RotateBy_new (- pi / 2) (pi / 2) (Some Clockwise), Actor_new)))
     = Some (- pi / 2)"
  using pi_gt_zero
  by (simp add: RotateTo_update_def RotateBy_update_def RotateTo_isComplete_def
      RotateBy_isComplete_def actor_after_def
      RotateTo_begin_def RotateTo_new_def RotateBy_begin_def RotateBy_new_def Actor_new_def Let_def TwoPI_def js_rem_five_quarter)

lemma RotateTo_update_fresh:
  "\<not> rt_started r \<Longrightarrow> RotateTo_update d (r, a) = RotateTo_update d (RotateTo_begin r a, a)"
  by (simp add: RotateTo_update_def RotateTo_begin_def Let_def)

lemma RotateTo_isComplete_Some:
  "rt_currentNonCannonAngle r = Some c \<Longrightarrow> rt_start r = Some s \<Longrightarrow> rt_distance r = Some D \<Longrightarrow>
   RotateTo_isComplete r = (rt_stopped r \<or> \<bar>c - s\<bar> \<ge> \<bar>D\<bar>)"
  by (simp add: RotateTo_isComplete_def)

lemma travelled:
  fixes s dir v t :: real
  assumes "dir = 1 \<or> dir = -1" "0 < v" "0 \<le> t"
  shows "\<bar>s + dir * v * (t / 1000) - s\<bar> = v * t / 1000"
  using assms by (auto simp: abs_mult)

lemma RotateTo_update_running:
  assumes run: "RotateTo_running s dir D t r"
    and dir: "dir = 1 \<or> dir = -1" and v: "0 < rt_speed r" and t: "0 \<le> t" and d: "0 \<le> d"
    and st: "rt_stopped r \<Longrightarrow> \<bar>D\<bar> \<le> rt_speed r * t / 1000"
  shows "\<exists>r' a'. RotateTo_update d (r, a) = Inr (r', a') \<and>
           RotateTo_running s dir D (t + d) r' \<and>
           rt_speed r' = rt_speed r \<and> rt_end r' = rt_end r \<and>
           rt_stopped r' = (\<bar>D\<bar> \<le> rt_speed r * (t + d) / 1000) \<and>
           RotateTo_isComplete r' = rt_stopped r' \<and>
           a' = (if rt_stopped r' then a\<lparr>rx := 0, rotation := rt_end r\<rparr>
                 else a\<lparr>rx := dir * rt_speed r\<rparr>)"
proof -
  let ?c = "s + dir * rt_speed r * (t / 1000) + dir * rt_speed r * (d / 1000)"
  have c: "?c = s + dir * rt_speed r * ((t + d) / 1000)" by (simp add: algebra_simps add_divide_distrib)
  let ?r2 = "r\<lparr>rt_currentNonCannonAngle := Some ?c\<rparr>"
  have tr: "\<bar>?c - s\<bar> = rt_speed r * (t + d) / 1000"
    unfolding c using travelled[OF dir v, of "t + d" s] t d by simp
  have mono: "rt_speed r * t / 1000 \<le> rt_speed r * (t + d) / 1000"
    using v d by (simp add: mult_left_mono divide_right_mono)
  have comp: "RotateTo_isComplete ?r2 = (\<bar>D\<bar> \<le> rt_speed r * (t + d) / 1000)"
    using run st mono tr by (auto simp: RotateTo_isComplete_def RotateTo_running_def)
  show ?thesis
  proof (cases "\<bar>D\<bar> \<le> rt_speed r * (t + d) / 1000")
    case True
    with run comp c show ?thesis 
      by (simp add: RotateTo_update_def RotateTo_running_def Let_def RotateTo_isComplete_def)
  next
    case False
    with run comp c st mono show ?thesis 
      by (auto simp add: RotateTo_update_def RotateTo_running_def Let_def RotateTo_isComplete_def)
  qed
qed

lemma RotateTo_running_complete:
  assumes run: "RotateTo_running s dir D t r"
    and dir: "dir = 1 \<or> dir = -1" and v: "0 < rt_speed r" and t: "0 \<le> t"
    and st: "rt_stopped r = (\<bar>D\<bar> \<le> rt_speed r * t / 1000)"
  shows "RotateTo_isComplete r = (\<bar>D\<bar> \<le> rt_speed r * t / 1000)"
  using run st travelled[OF dir v t, of s]
  by (auto simp: RotateTo_isComplete_def RotateTo_running_def)

lemma RotateTo_frames_running:
  assumes env: "\<And>d a. rx (env d a) = rx a \<and> (rx a = 0 \<longrightarrow> rotation (env d a) = rotation a)"
    and ds: "\<forall>d\<in>set ds. 0 \<le> d"
    and run: "RotateTo_running s dir D t r"
    and dir: "dir = 1 \<or> dir = -1" and v: "0 < rt_speed r" and t: "0 \<le> t"
    and st: "rt_stopped r = (\<bar>D\<bar> \<le> rt_speed r * t / 1000)"
    and act: "rt_stopped r \<Longrightarrow> rotation a = rt_end r \<and> rx a = 0"
    and turn: "\<not> rt_stopped r \<Longrightarrow> rx a = dir * rt_speed r"
  shows "\<exists>r' a'. run_frames RotateTo_update env ds (r, a) = Inr (r', a') \<and>
           RotateTo_running s dir D (t + sum_list ds) r' \<and>
           rt_speed r' = rt_speed r \<and> rt_end r' = rt_end r \<and>
           rt_stopped r' = (\<bar>D\<bar> \<le> rt_speed r * (t + sum_list ds) / 1000) \<and>
           (rt_stopped r' \<longrightarrow> rotation a' = rt_end r \<and> rx a' = 0) \<and>
           (\<not> rt_stopped r' \<longrightarrow> rx a' = dir * rt_speed r)"
  using ds run v t st act turn
proof (induction ds arbitrary: r a t)
  case Nil
  then show ?case by simp
next
  case (Cons d ds)
  from Cons.prems have d: "0 \<le> d" and ds: "\<forall>d\<in>set ds. 0 \<le> d" by simp_all
  from Cons.prems(5) have st': "rt_stopped r \<Longrightarrow> \<bar>D\<bar> \<le> rt_speed r * t / 1000" by simp
  from RotateTo_update_running[OF Cons.prems(2) dir Cons.prems(3) Cons.prems(4) d st', of a]
  obtain r1 a1 where u: "RotateTo_update d (r, a) = Inr (r1, a1)"
    and run1: "RotateTo_running s dir D (t + d) r1"
    and sp1: "rt_speed r1 = rt_speed r" and e1: "rt_end r1 = rt_end r"
    and st1: "rt_stopped r1 = (\<bar>D\<bar> \<le> rt_speed r * (t + d) / 1000)"
    and a1: "a1 = (if rt_stopped r1 then a\<lparr>rx := 0, rotation := rt_end r\<rparr>
                 else a\<lparr>rx := dir * rt_speed r\<rparr>)"
    by blast
  have act1: "rt_stopped r1 \<Longrightarrow> rotation (env d a1) = rt_end r1 \<and> rx (env d a1) = 0"
    using env[of d a1] a1 e1 by simp
  have turn1: "\<not> rt_stopped r1 \<Longrightarrow> rx (env d a1) = dir * rt_speed r1"
    using env[of d a1] a1 sp1 by simp
  have v1: "0 < rt_speed r1" using Cons.prems(3) sp1 by simp
  have t1: "0 \<le> t + d" using Cons.prems(4) d by simp
  have st1': "rt_stopped r1 = (\<bar>D\<bar> \<le> rt_speed r1 * (t + d) / 1000)" using st1 sp1 by simp
  from Cons.IH[OF ds run1 v1 t1 st1' act1 turn1]
  obtain r' a' where f: "run_frames RotateTo_update env ds (r1, env d a1) = Inr (r', a')"
    and post: "RotateTo_running s dir D (t + d + sum_list ds) r'"
      "rt_speed r' = rt_speed r1" "rt_end r' = rt_end r1"
      "rt_stopped r' = (\<bar>D\<bar> \<le> rt_speed r1 * (t + d + sum_list ds) / 1000)"
      "rt_stopped r' \<longrightarrow> rotation a' = rt_end r1 \<and> rx a' = 0"
      "\<not> rt_stopped r' \<longrightarrow> rx a' = dir * rt_speed r1"
    by blast
  have "run_frames RotateTo_update env (d # ds) (r, a) = Inr (r', a')"
    using u f by simp
  with post sp1 e1 show ?case by (simp add: add.assoc)
qed

lemma quarter_turn_begin:
  "RotateTo_running 0 (if mode = ShortestPath \<or> mode = Clockwise then 1 else -1)
     (if mode = ShortestPath \<or> mode = Clockwise then pi / 2 else 3 * pi / 2) 0
     (RotateTo_begin (RotateTo_new (pi / 2) (pi / 2) (Some mode)) Actor_new) \<and>
   rt_speed (RotateTo_begin (RotateTo_new (pi / 2) (pi / 2) (Some mode)) Actor_new) = pi / 2 \<and>
   rt_end (RotateTo_begin (RotateTo_new (pi / 2) (pi / 2) (Some mode)) Actor_new) = pi / 2 \<and>
   \<not> rt_stopped (RotateTo_begin (RotateTo_new (pi / 2) (pi / 2) (Some mode)) Actor_new)"
  using pi_gt_zero
  by (cases mode)
    (simp_all add: RotateTo_running_def RotateTo_begin_def RotateTo_new_def Actor_new_def
      Let_def TwoPI_def js_rem_three_quarter)

lemma RotateTo_quarter_turn_frames:
  assumes env: "\<And>d a. rx (env d a) = rx a \<and> (rx a = 0 \<longrightarrow> rotation (env d a) = rotation a)"
    and ne: "ds \<noteq> []" and nonneg: "\<forall>d\<in>set ds. 0 \<le> d"
  shows "\<exists>r a. run_frames RotateTo_update env ds
             (RotateTo_new (pi / 2) (pi / 2) (Some mode), Actor_new) = Inr (r, a) \<and>
           rt_distance r = Some (if mode = ShortestPath \<or> mode = Clockwise
                                 then pi / 2 else 3 * pi / 2) \<and>
           rt_direction r = Some (if mode = ShortestPath \<or> mode = Clockwise then 1 else -1) \<and>
           RotateTo_isComplete r =
             ((if mode = ShortestPath \<or> mode = Clockwise then 1000 else 3000) \<le> sum_list ds) \<and>
           (RotateTo_isComplete r \<longrightarrow> rotation a = pi / 2 \<and> rx a = 0) \<and>
           (\<not> RotateTo_isComplete r \<longrightarrow>
              rx a = (if mode = ShortestPath \<or> mode = Clockwise then 1 else -1) * (pi / 2))"
proof -
  define dir :: real where "dir = (if mode = ShortestPath \<or> mode = Clockwise then 1 else -1)"
  define D :: real where "D = (if mode = ShortestPath \<or> mode = Clockwise then pi / 2 else 3 * pi / 2)"
  define T :: real where "T = (if mode = ShortestPath \<or> mode = Clockwise then 1000 else 3000)"
  define r0 where "r0 = RotateTo_new (pi / 2) (pi / 2) (Some mode)"
  define rb where "rb = RotateTo_begin r0 Actor_new"
  obtain d es where ds: "ds = d # es" using ne by (cases ds) auto
  with nonneg have d: "0 \<le> d" and es: "\<forall>d\<in>set es. 0 \<le> d" by simp_all
  have b: "RotateTo_running 0 dir D 0 rb" "rt_speed rb = pi / 2" "rt_end rb = pi / 2"
    "\<not> rt_stopped rb"
    using quarter_turn_begin[of mode] by (simp_all add: dir_def D_def rb_def r0_def)
  have dir: "dir = 1 \<or> dir = -1" by (simp add: dir_def)
  have Dpos: "\<bar>D\<bar> = D" using pi_gt_zero by (simp add: D_def)
  have reach: "\<And>t. (\<bar>D\<bar> \<le> pi / 2 * t / 1000) = (T \<le> t)"
    unfolding Dpos using pi_gt_zero by (simp add: D_def T_def field_simps)
  have fresh: "RotateTo_update d (r0, Actor_new) = RotateTo_update d (rb, Actor_new)"
    unfolding rb_def by (rule RotateTo_update_fresh) (simp add: r0_def RotateTo_new_def)
  have v: "0 < rt_speed rb" unfolding b(2) using pi_gt_zero by simp
  from RotateTo_update_running[OF b(1) dir v _ d, of Actor_new] b(4)
  obtain r1 a1 where u: "RotateTo_update d (rb, Actor_new) = Inr (r1, a1)"
    and run1: "RotateTo_running 0 dir D (0 + d) r1"
    and sp1: "rt_speed r1 = rt_speed rb" and e1: "rt_end r1 = rt_end rb"
    and st1: "rt_stopped r1 = (\<bar>D\<bar> \<le> rt_speed rb * (0 + d) / 1000)"
    and a1: "a1 = (if rt_stopped r1 then Actor_new\<lparr>rx := 0, rotation := rt_end rb\<rparr>
                 else Actor_new\<lparr>rx := dir * rt_speed rb\<rparr>)"
    by auto
  have act1: "rt_stopped r1 \<Longrightarrow> rotation (env d a1) = rt_end r1 \<and> rx (env d a1) = 0"
    using env[of d a1] a1 e1 by simp
  have turn1: "\<not> rt_stopped r1 \<Longrightarrow> rx (env d a1) = dir * rt_speed r1"
    using env[of d a1] a1 sp1 by simp
  have v1: "0 < rt_speed r1" using v sp1 by simp
  have st1': "rt_stopped r1 = (\<bar>D\<bar> \<le> rt_speed r1 * (0 + d) / 1000)" using st1 sp1 by simp
  have d0: "0 \<le> 0 + d" using d by simp
  from RotateTo_frames_running[where env=env, OF env es run1 dir v1 d0 st1' act1 turn1]
  obtain r a where f: "run_frames RotateTo_update env es (r1, env d a1) = Inr (r, a)"
    and run: "RotateTo_running 0 dir D (0 + d + sum_list es) r"
    and sp: "rt_speed r = rt_speed r1" and e: "rt_end r = rt_end r1"
    and st: "rt_stopped r = (\<bar>D\<bar> \<le> rt_speed r1 * (0 + d + sum_list es) / 1000)"
    and act: "rt_stopped r \<longrightarrow> rotation a = rt_end r1 \<and> rx a = 0"
    and turn: "\<not> rt_stopped r \<longrightarrow> rx a = dir * rt_speed r1"
    by blast
  have total: "0 + d + sum_list es = sum_list ds" by (simp add: ds)
  have tpos: "0 \<le> sum_list ds" using nonneg by (simp add: sum_list_nonneg)
  have spr: "rt_speed r = pi / 2" using sp sp1 b(2) by simp
  have str: "rt_stopped r = (T \<le> sum_list ds)"
    using st unfolding sp1 b(2) total reach .
  have vr: "0 < rt_speed r" unfolding spr using pi_gt_zero by simp
  have str': "rt_stopped r = (\<bar>D\<bar> \<le> rt_speed r * sum_list ds / 1000)"
    unfolding spr reach by (rule str)
  have comp: "RotateTo_isComplete r = (T \<le> sum_list ds)"
    using RotateTo_running_complete[OF run[unfolded total] dir vr tpos str']
    unfolding spr reach .
  have res: "run_frames RotateTo_update env ds (r0, Actor_new) = Inr (r, a)"
    using fresh u f by (simp add: ds)
  have fields: "rt_distance r = Some D" "rt_direction r = Some dir"
    using run by (simp_all add: RotateTo_running_def)
  have land: "RotateTo_isComplete r \<longrightarrow> rotation a = pi / 2 \<and> rx a = 0"
    using act comp str e1 b(3) by simp
  have turning: "\<not> RotateTo_isComplete r \<longrightarrow> rx a = dir * (pi / 2)"
    using turn comp str sp1 b(2) by simp
  from res fields comp land turning show ?thesis
    unfolding r0_def D_def dir_def T_def by blast
qed

lemma integrate_keeps_rx:
  "rx (integrate d a) = rx a \<and> (rx a = 0 \<longrightarrow> rotation (integrate d a) = rotation a)"
  by (simp add: integrate_def)

text \<open>
  C4, as stated, fails.  Under \<^verbatim>\<open>LongestPath\<close> and under \<^verbatim>\<open>CounterClockwise\<close> the
  rotation from 0 to \<open>\<pi>/2\<close> at \<open>\<pi>/2\<close> per second is not complete after 2.5 s of ticks.
\<close>

theorem RotateTo_long_way_not_complete_at_2500:
  "sum_list [1000, 1000, 500] = (2500 :: real) \<and>
   map_option RotateTo_isComplete (state_after (run_frames RotateTo_update integrate
     [1000, 1000, 500] (RotateTo_new (pi / 2) (pi / 2) (Some LongestPath), Actor_new)))
     = Some False \<and>
   map_option RotateTo_isComplete (state_after (run_frames RotateTo_update integrate
     [1000, 1000, 500] (RotateTo_new (pi / 2) (pi / 2) (Some CounterClockwise), Actor_new)))
     = Some False"
proof -
  have ne: "[1000, 1000, 500 :: real] \<noteq> []" and nn: "\<forall>d\<in>set [1000, 1000, 500 :: real]. 0 \<le> d"
    by simp_all
  from RotateTo_quarter_turn_frames[where env=integrate and mode=LongestPath,
      OF integrate_keeps_rx ne nn]
  have l: "map_option RotateTo_isComplete (state_after (run_frames RotateTo_update integrate
     [1000, 1000, 500] (RotateTo_new (pi / 2) (pi / 2) (Some LongestPath), Actor_new)))
     = Some False"
    by (auto simp: state_after_def)
  from RotateTo_quarter_turn_frames[where env=integrate and mode=CounterClockwise,
      OF integrate_keeps_rx ne nn]
  have c: "map_option RotateTo_isComplete (state_after (run_frames RotateTo_update integrate
     [1000, 1000, 500] (RotateTo_new (pi / 2) (pi / 2) (Some CounterClockwise), Actor_new)))
     = Some False"
    by (auto simp: state_after_def)
  from l c show ?thesis by simp
qed

text \<open>
  C4, amended.  A \<^verbatim>\<open>RotateTo\<close> from rotation 0 to \<open>\<pi>/2\<close> at \<open>\<pi>/2\<close> per second, ticked
  in frames between which the engine leaves the angular velocity alone and leaves the
  rotation of a resting actor alone.  Under \<^verbatim>\<open>ShortestPath\<close> and under \<^verbatim>\<open>Clockwise\<close>
  the selected distance is \<open>\<pi>/2\<close> and the direction \<open>+1\<close>: after a tick of 500 ms the
  behaviour is not complete and turns the actor at \<open>+\<pi>/2\<close> per second, and after 1 s of
  ticks (two of 500 ms, or one of 1000 ms) it is complete, the rotation exactly \<open>\<pi>/2\<close>
  and the angular velocity 0.  Under \<^verbatim>\<open>LongestPath\<close> and under \<^verbatim>\<open>CounterClockwise\<close> the
  selected distance is \<open>3\<pi>/2\<close> and the direction \<open>-1\<close>, the long way: after 2.5 s of
  ticks (1000, 1000 and 500 ms) the behaviour is not complete and turns the actor at
  \<open>-\<pi>/2\<close> per second, and after 3 s of ticks (1000 and 2000 ms, or one of 3000 ms) it is
  complete, the rotation exactly \<open>\<pi>/2\<close> and the angular velocity 0.

  In these schedules every angle that the code computes is \<open>k\<pi>/4\<close> for an integer
  \<open>k\<close> from 0 to 8, and every \<^verbatim>\<open>delta / 1000\<close> is \<open>1/2\<close>, 1, 2 or 3.  The doubles of
  the source compute such multiples of \<^verbatim>\<open>Math.PI\<close> without rounding, so its comparisons
  come out as they do over the reals.  For other schedules the sum that the source
  accumulates can fall short of the distance by a rounding error in the tick in which
  the reals reach it.
\<close>

theorem RotateTo_quarter_turn:
  assumes env: "\<And>d a. rx (env d a) = rx a \<and> (rx a = 0 \<longrightarrow> rotation (env d a) = rotation a)"
    and short: "short = ShortestPath \<or> short = Clockwise"
    and long: "long = LongestPath \<or> long = CounterClockwise"
  shows "(\<exists>r a. quarter_turn env short [500] = Inr (r, a) \<and>
            rt_distance r = Some (pi / 2) \<and> rt_direction r = Some 1 \<and>
            \<not> RotateTo_isComplete r \<and> rx a = pi / 2) \<and>
         (\<exists>r a. quarter_turn env short [500, 500] = Inr (r, a) \<and>
            RotateTo_isComplete r \<and> rotation a = pi / 2 \<and> rx a = 0) \<and>
         (\<exists>r a. quarter_turn env short [1000] = Inr (r, a) \<and>
            RotateTo_isComplete r \<and> rotation a = pi / 2 \<and> rx a = 0) \<and>
         (\<exists>r a. quarter_turn env long [1000, 1000, 500] = Inr (r, a) \<and>
            rt_distance r = Some (3 * pi / 2) \<and> rt_direction r = Some (- 1) \<and>
            \<not> RotateTo_isComplete r \<and> rx a = - (pi / 2)) \<and>
         (\<exists>r a. quarter_turn env long [1000, 2000] = Inr (r, a) \<and>
            RotateTo_isComplete r \<and> rotation a = pi / 2 \<and> rx a = 0) \<and>
         (\<exists>r a. quarter_turn env long [3000] = Inr (r, a) \<and>
            RotateTo_isComplete r \<and> rotation a = pi / 2 \<and> rx a = 0)"
proof -
  have s: "(if short = ShortestPath \<or> short = Clockwise then x else y) = x" for x y :: real
    using short by simp
  have l: "(if long = ShortestPath \<or> long = Clockwise then x else y) = y" for x y :: real
    using long by auto
  have 1: "\<exists>r a. quarter_turn env short [500] = Inr (r, a) \<and>
            rt_distance r = Some (pi / 2) \<and> rt_direction r = Some 1 \<and>
            \<not> RotateTo_isComplete r \<and> rx a = pi / 2"
    using RotateTo_quarter_turn_frames[where env=env and mode=short and ds="[500]", OF env]
    unfolding s quarter_turn_def by auto
  have 2: "\<exists>r a. quarter_turn env short [500, 500] = Inr (r, a) \<and>
            RotateTo_isComplete r \<and> rotation a = pi / 2 \<and> rx a = 0"
    using RotateTo_quarter_turn_frames[where env=env and mode=short and ds="[500, 500]", OF env]
    unfolding s quarter_turn_def by auto
  have 3: "\<exists>r a. quarter_turn env short [1000] = Inr (r, a) \<and>
            RotateTo_isComplete r \<and> rotation a = pi / 2 \<and> rx a = 0"
    using RotateTo_quarter_turn_frames[where env=env and mode=short and ds="[1000]", OF env]
    unfolding s quarter_turn_def by auto
  have 4: "\<exists>r a. quarter_turn env long [1000, 1000, 500] = Inr (r, a) \<and>
            rt_distance r = Some (3 * pi / 2) \<and> rt_direction r = Some (- 1) \<and>
            \<not> RotateTo_isComplete r \<and> rx a = - (pi / 2)"
    using RotateTo_quarter_turn_frames[where env=env and mode=long and ds="[1000, 1000, 500]",
        OF env]
    unfolding l quarter_turn_def by auto
  have 5: "\<exists>r a. quarter_turn env long [1000, 2000] = Inr (r, a) \<and>
            RotateTo_isComplete r \<and> rotation a = pi / 2 \<and> rx a = 0"
    using RotateTo_quarter_turn_frames[where env=env and mode=long and ds="[1000, 2000]", OF env]
    unfolding l quarter_turn_def by auto
  have 6: "\<exists>r a. quarter_turn env long [3000] = Inr (r, a) \<and>
            RotateTo_isComplete r \<and> rotation a = pi / 2 \<and> rx a = 0"
    using RotateTo_quarter_turn_frames[where env=env and mode=long and ds="[3000]", OF env]
    unfolding l quarter_turn_def by auto
  from 1 2 3 4 5 6 show ?thesis by blast
qed

theorem RotateTo_quarter_turn_witness:
  "map_option rx (actor_after (quarter_turn integrate ShortestPath [500])) = Some (pi / 2) \<and>
   map_option RotateTo_isComplete (state_after (quarter_turn integrate ShortestPath [500, 500]))
     = Some True \<and>
   map_option rx (actor_after (quarter_turn integrate LongestPath [1000, 1000, 500]))
     = Some (- (pi / 2)) \<and>
   map_option RotateTo_isComplete (state_after (quarter_turn integrate LongestPath [1000, 2000]))
     = Some True \<and>
   map_option rotation (actor_after (quarter_turn integrate LongestPath [1000, 2000]))
     = Some (pi / 2)"
proof -
  have h: "ShortestPath = ShortestPath \<or> ShortestPath = Clockwise"
    "LongestPath = LongestPath \<or> LongestPath = CounterClockwise"
    by simp_all
  from RotateTo_quarter_turn[where env=integrate, OF integrate_keeps_rx h]
  show ?thesis by (auto simp: state_after_def actor_after_def)
qed

subsection \<open>MoveTo\<close>

lemma MoveTo_update_fresh:
  "\<not> mt_started m \<Longrightarrow> MoveTo_update d (m, a) = MoveTo_update d (MoveTo_begin m a, a)"
  by (simp add: MoveTo_update_def MoveTo_begin_def Let_def)

lemma distance_self: "distance p p = 0"
  by (simp add: distance_def)

lemma distance_pos: "vec_x p \<noteq> vec_x q \<or> vec_y p \<noteq> vec_y q \<Longrightarrow> 0 < distance p q"
proof -
  assume "vec_x p \<noteq> vec_x q \<or> vec_y p \<noteq> vec_y q"
  then have "0 < (vec_x p - vec_x q)\<^sup>2 + (vec_y p - vec_y q)\<^sup>2"
    by (auto simp: sum_power2_gt_zero_iff)
  then show ?thesis by (simp add: distance_def)
qed

lemma MoveTo_zero_step:
  assumes "mt_started m" "mt_start m = Some s" "mt_distance m = Some D" "0 < D"
    "mt_dir m = Some dv" "mt_speed m = 0" "\<not> mt_stopped m"
    "vec (vec_x (pos a)) (vec_y (pos a)) = s"
  shows "MoveTo_update d (m, a) = Inr (m, a\<lparr>vel := vec 0 0\<rparr>) \<and>
         \<not> MoveTo_isComplete m (a\<lparr>vel := vec 0 0\<rparr>) \<and> \<not> MoveTo_isComplete m a"
  using assms
  by (simp add: MoveTo_update_def MoveTo_isComplete_def Let_def scale_vec_def vec_def distance_self)

lemma MoveTo_zero_frames:
  assumes env: "\<And>d a. vel a = vec 0 0 \<Longrightarrow> pos (env d a) = pos a"
    and inv: "mt_started m" "mt_start m = Some s" "mt_distance m = Some D" "0 < D"
    "mt_dir m = Some dv" "mt_speed m = 0" "\<not> mt_stopped m"
    "vec (vec_x (pos a)) (vec_y (pos a)) = s"
  shows "\<exists>a'. run_frames MoveTo_update env ds (m, a) = Inr (m, a') \<and>
           vec (vec_x (pos a')) (vec_y (pos a')) = s"
  using inv(8)
proof (induction ds arbitrary: a)
  case Nil
  then show ?case by simp
next
  case (Cons d ds)
  from MoveTo_zero_step[OF inv(1-7) Cons.prems, of d]
  have u: "MoveTo_update d (m, a) = Inr (m, a\<lparr>vel := vec 0 0\<rparr>)" by simp
  have "pos (env d (a\<lparr>vel := vec 0 0\<rparr>)) = pos a"
    using env[of "a\<lparr>vel := vec 0 0\<rparr>" d] by simp
  with Cons.prems have "vec (vec_x (pos (env d (a\<lparr>vel := vec 0 0\<rparr>))))
      (vec_y (pos (env d (a\<lparr>vel := vec 0 0\<rparr>)))) = s" by simp
  from Cons.IH[OF this] u show ?case by simp
qed

lemma integrate_zero_velocity: "vel a = vec 0 0 \<Longrightarrow> pos (integrate d a) = pos a"
  by (simp add: integrate_def add_def scale_vec_def vec_def)

text \<open>
  C10.  The constructor of \<^verbatim>\<open>MoveTo\<close> returns a behaviour for every speed.  With speed 0
  and a destination that is not the position of the actor at the first tick, in an
  engine that leaves the position of an actor of velocity zero where it is, no run of
  frames completes the behaviour, and neither does the next update, which sets the
  velocity to zero.
\<close>

theorem MoveTo_zero_speed_never_completes:
  assumes env: "\<And>d a. vel a = vec 0 0 \<Longrightarrow> pos (env d a) = pos a"
    and far: "vec_x (pos a0) \<noteq> destx \<or> vec_y (pos a0) \<noteq> desty"
  shows "(\<exists>m. MoveTo_new destx desty speed = Inr m \<and> mt_speed m = speed) \<and>
         (\<exists>m0 m a. MoveTo_new destx desty 0 = Inr m0 \<and>
            run_frames MoveTo_update env ds (m0, a0) = Inr (m, a) \<and>
            \<not> MoveTo_isComplete m a \<and>
            (\<exists>m' a'. MoveTo_update d (m, a) = Inr (m', a') \<and> vel a' = vec 0 0 \<and>
               \<not> MoveTo_isComplete m' a'))"
proof -
  define m0 where "m0 = \<lparr>mt_start = None, mt_end = vec destx desty, mt_dir = None, mt_speed = 0,
          mt_distance = None, mt_started = False, mt_stopped = False\<rparr>"
  define s where "s = vec (vec_x (pos a0)) (vec_y (pos a0))"
  define mb where "mb = MoveTo_begin m0 a0"
  have new: "MoveTo_new destx desty 0 = Inr m0" by (simp add: MoveTo_new_def m0_def)
  have fresh: "\<not> mt_started m0" by (simp add: m0_def)
  have D: "0 < distance s (vec destx desty)"
    using far by (intro distance_pos) (simp add: s_def vec_def)
  have inv: "mt_started mb" "mt_start mb = Some s" "mt_distance mb = Some (distance s (vec destx desty))"
    "mt_dir mb = Some (normalize (sub (vec destx desty) s))" "mt_speed mb = 0" "\<not> mt_stopped mb"
    by (simp_all add: mb_def MoveTo_begin_def m0_def s_def Let_def)
  have at: "vec (vec_x (pos a0)) (vec_y (pos a0)) = s" by (simp add: s_def)
  have first: "\<And>e. MoveTo_update e (m0, a0) = MoveTo_update e (mb, a0)"
    unfolding mb_def using fresh by (rule MoveTo_update_fresh)
  have nc0: "\<not> MoveTo_isComplete m0 a0" by (simp add: MoveTo_isComplete_def m0_def)
  have run: "\<exists>m a. run_frames MoveTo_update env ds (m0, a0) = Inr (m, a) \<and>
      \<not> MoveTo_isComplete m a \<and>
      (\<exists>m' a'. MoveTo_update d (m, a) = Inr (m', a') \<and> vel a' = vec 0 0 \<and>
         \<not> MoveTo_isComplete m' a')"
  proof (cases ds)
    case Nil
    from MoveTo_zero_step[OF inv(1-3) D inv(4-6) at, of d] first[of d] nc0 Nil
    show ?thesis by auto
  next
    case (Cons e es)
    have "run_frames MoveTo_update env ds (m0, a0) = run_frames MoveTo_update env ds (mb, a0)"
      using first[of e] by (simp add: Cons)
    moreover from MoveTo_zero_frames[where env=env, OF env inv(1-3) D inv(4-6) at, of ds]
    obtain a where r: "run_frames MoveTo_update env ds (mb, a0) = Inr (mb, a)"
      and p: "vec (vec_x (pos a)) (vec_y (pos a)) = s" by blast
    moreover from MoveTo_zero_step[OF inv(1-3) D inv(4-6) p, of d]
    have "MoveTo_update d (mb, a) = Inr (mb, a\<lparr>vel := vec 0 0\<rparr>)"
      "\<not> MoveTo_isComplete mb (a\<lparr>vel := vec 0 0\<rparr>)" "\<not> MoveTo_isComplete mb a"
      by simp_all
    ultimately show ?thesis by auto
  qed
  have "\<exists>m. MoveTo_new destx desty speed = Inr m \<and> mt_speed m = speed"
    by (simp add: MoveTo_new_def)
  with new run show ?thesis by blast
qed

theorem MoveTo_zero_speed_never_completes_witness:
  "vec_x (pos Actor_new) \<noteq> 20 \<and>
   (\<exists>m. MoveTo_new 20 0 (-5) = Inr m \<and> mt_speed m = -5) \<and>
   (\<exists>m0 m a. MoveTo_new 20 0 0 = Inr m0 \<and>
      run_frames MoveTo_update integrate [1000, 1000] (m0, Actor_new) = Inr (m, a) \<and>
      \<not> MoveTo_isComplete m a)"
proof -
  have x: "vec_x (pos Actor_new) \<noteq> 20"
    by (simp add: Actor_new_def vec_def)
  then have far: "vec_x (pos Actor_new) \<noteq> 20 \<or> vec_y (pos Actor_new) \<noteq> 0" by simp
  from MoveTo_zero_speed_never_completes[where env=integrate and ?a0.0=Actor_new
      and destx=20 and desty=0 and speed="-5" and ds="[1000, 1000]" and d=0,
      OF integrate_zero_velocity far] x
  show ?thesis by blast
qed

subsection \<open>Updates after completion and after stop\<close>

lemma MoveTo_isComplete_vel:
  "MoveTo_isComplete m (a\<lparr>vel := v\<rparr>) = MoveTo_isComplete m a"
  by (simp add: MoveTo_isComplete_def split: option.splits)

lemma MoveTo_update_started:
  assumes "mt_started m" "mt_dir m = Some dv"
  shows "MoveTo_update d (m, a) =
     Inr (m, if MoveTo_isComplete m a
             then a\<lparr>vel := vec 0 0, pos := vec (vec_x (mt_end m)) (vec_y (mt_end m))\<rparr>
             else a\<lparr>vel := vec (vec_x (scale_vec dv (mt_speed m))) (vec_y (scale_vec dv (mt_speed m)))\<rparr>)"
  using assms by (simp add: MoveTo_update_def Let_def MoveTo_isComplete_vel)

lemma MoveTo_update_returns:
  assumes "MoveTo_update d (m, a) = Inr (m', a')"
  shows "mt_started m' \<and> mt_dir m' \<noteq> None \<and> MoveTo_update d (m', a) = Inr (m', a')"
proof (cases "mt_started m")
  case True
  with assms show ?thesis
    by (cases "mt_dir m") (auto simp: MoveTo_update_def Let_def split: if_splits)
next
  case False
  have b: "mt_started (MoveTo_begin m a)" "mt_dir (MoveTo_begin m a) \<noteq> None"
    by (simp_all add: MoveTo_begin_def Let_def)
  then obtain dv where dv: "mt_dir (MoveTo_begin m a) = Some dv" by auto
  from assms False have u: "MoveTo_update d (MoveTo_begin m a, a) = Inr (m', a')"
    by (simp add: MoveTo_update_fresh)
  with MoveTo_update_started[OF b(1) dv, of d a] have "m' = MoveTo_begin m a" by simp
  with b u show ?thesis by simp
qed

lemma MoveTo_settled:
  assumes u: "MoveTo_update d (m, a) = Inr (m', a')" and c: "MoveTo_isComplete m' a'"
  shows "MoveTo_update e (m', a') = Inr (m', a')"
proof -
  from MoveTo_update_returns[OF u] obtain dv where st: "mt_started m'" and dv: "mt_dir m' = Some dv"
    and u': "MoveTo_update d (m', a) = Inr (m', a')" by auto
  have a': "a' = (if MoveTo_isComplete m' a
             then a\<lparr>vel := vec 0 0, pos := vec (vec_x (mt_end m')) (vec_y (mt_end m'))\<rparr>
             else a\<lparr>vel := vec (vec_x (scale_vec dv (mt_speed m'))) (vec_y (scale_vec dv (mt_speed m')))\<rparr>)"
    using u' MoveTo_update_started[OF st dv, of d a] by simp
  have snapped: "a' = a\<lparr>vel := vec 0 0, pos := vec (vec_x (mt_end m')) (vec_y (mt_end m'))\<rparr>"
  proof (cases "MoveTo_isComplete m' a")
    case True with a' show ?thesis by simp
  next
    case False
    with a' have "a' = a\<lparr>vel := vec (vec_x (scale_vec dv (mt_speed m'))) (vec_y (scale_vec dv (mt_speed m')))\<rparr>" by simp
    with c False show ?thesis by (simp add: MoveTo_isComplete_vel)
  qed
  show ?thesis
    using MoveTo_update_started[OF st dv, of e a'] c by (simp add: snapped)
qed

lemma MoveTo_update_stopped:
  assumes wf: "mt_started m \<longrightarrow> mt_dir m \<noteq> None" and s: "mt_stopped m"
  shows "\<exists>m' a'. MoveTo_update d (m, a) = Inr (m', a') \<and> MoveTo_isComplete m' a' \<and>
           vel a' = vec 0 0 \<and> rx a' = rx a \<and> sx a' = sx a \<and> sy a' = sy a"
proof -
  define m1 where "m1 = (if mt_started m then m else MoveTo_begin m a)"
  have u: "MoveTo_update d (m, a) = MoveTo_update d (m1, a)"
    using MoveTo_update_fresh[of m d a] by (simp add: m1_def)
  have st: "mt_started m1" "mt_stopped m1" "mt_dir m1 \<noteq> None"
    using wf s by (auto simp: m1_def MoveTo_begin_def Let_def)
  then obtain dv where dv: "mt_dir m1 = Some dv" by auto
  have c: "\<And>b. MoveTo_isComplete m1 b" using st(2) by (simp add: MoveTo_isComplete_def)
  show ?thesis
    unfolding u using MoveTo_update_started[OF st(1) dv, of d a] c by simp
qed

lemma MoveBy_update_fresh:
  "\<not> mb_started m \<Longrightarrow> MoveBy_update d (m, a) = MoveBy_update d (MoveBy_begin m a, a)"
  by (simp add: MoveBy_update_def MoveBy_begin_def Let_def)

lemma MoveBy_isComplete_vel:
  "MoveBy_isComplete m (a\<lparr>vel := v\<rparr>) = MoveBy_isComplete m a"
  by (simp add: MoveBy_isComplete_def split: option.splits)

lemma MoveBy_update_started:
  assumes "mb_started m" "mb_dir m = Some dv" "mb_end m = Some en"
  shows "MoveBy_update d (m, a) =
     Inr (m, if MoveBy_isComplete m a
             then a\<lparr>vel := vec 0 0, pos := vec (vec_x en) (vec_y en)\<rparr>
             else a\<lparr>vel := scale_vec dv (mb_speed m)\<rparr>)"
  using assms by (simp add: MoveBy_update_def Let_def MoveBy_isComplete_vel)

lemma MoveBy_update_returns:
  assumes "MoveBy_update d (m, a) = Inr (m', a')"
  shows "mb_started m' \<and> mb_dir m' \<noteq> None \<and> mb_end m' \<noteq> None \<and>
         MoveBy_update d (m', a) = Inr (m', a')"
proof (cases "mb_started m")
  case True
  with assms show ?thesis
    by (cases "mb_dir m"; cases "mb_end m") (auto simp: MoveBy_update_def Let_def split: if_splits)
next
  case False
  have b: "mb_started (MoveBy_begin m a)" "mb_dir (MoveBy_begin m a) \<noteq> None"
    "mb_end (MoveBy_begin m a) \<noteq> None"
    by (simp_all add: MoveBy_begin_def Let_def)
  then obtain dv en where dv: "mb_dir (MoveBy_begin m a) = Some dv"
    and en: "mb_end (MoveBy_begin m a) = Some en" by auto
  from assms False have u: "MoveBy_update d (MoveBy_begin m a, a) = Inr (m', a')"
    by (simp add: MoveBy_update_fresh)
  with MoveBy_update_started[OF b(1) dv en, of d a] have "m' = MoveBy_begin m a" by simp
  with b u show ?thesis by simp
qed

lemma MoveBy_settled:
  assumes u: "MoveBy_update d (m, a) = Inr (m', a')" and c: "MoveBy_isComplete m' a'"
  shows "MoveBy_update e (m', a') = Inr (m', a')"
proof -
  from MoveBy_update_returns[OF u] obtain dv en where st: "mb_started m'"
    and dv: "mb_dir m' = Some dv" and en: "mb_end m' = Some en"
    and u': "MoveBy_update d (m', a) = Inr (m', a')" by auto
  have a': "a' = (if MoveBy_isComplete m' a
             then a\<lparr>vel := vec 0 0, pos := vec (vec_x en) (vec_y en)\<rparr>
             else a\<lparr>vel := scale_vec dv (mb_speed m')\<rparr>)"
    using u' MoveBy_update_started[OF st dv en, of d a] by simp
  have snapped: "a' = a\<lparr>vel := vec 0 0, pos := vec (vec_x en) (vec_y en)\<rparr>"
  proof (cases "MoveBy_isComplete m' a")
    case True with a' show ?thesis by simp
  next
    case False
    with a' have "a' = a\<lparr>vel := scale_vec dv (mb_speed m')\<rparr>" by simp
    with c False show ?thesis by (simp add: MoveBy_isComplete_vel)
  qed
  show ?thesis
    using MoveBy_update_started[OF st dv en, of e a'] c by (simp add: snapped)
qed

lemma MoveBy_update_stopped:
  assumes wf: "mb_started m \<longrightarrow> mb_dir m \<noteq> None \<and> mb_end m \<noteq> None" and s: "mb_stopped m"
  shows "\<exists>m' a'. MoveBy_update d (m, a) = Inr (m', a') \<and> MoveBy_isComplete m' a' \<and>
           vel a' = vec 0 0 \<and> rx a' = rx a \<and> sx a' = sx a \<and> sy a' = sy a"
proof -
  define m1 where "m1 = (if mb_started m then m else MoveBy_begin m a)"
  have u: "MoveBy_update d (m, a) = MoveBy_update d (m1, a)"
    using MoveBy_update_fresh[of m d a] by (simp add: m1_def)
  have st: "mb_started m1" "mb_stopped m1" "mb_dir m1 \<noteq> None" "mb_end m1 \<noteq> None"
    using wf s by (auto simp: m1_def MoveBy_begin_def Let_def)
  then obtain dv en where dv: "mb_dir m1 = Some dv" and en: "mb_end m1 = Some en" by auto
  have c: "\<And>b. MoveBy_isComplete m1 b" using st(2) by (simp add: MoveBy_isComplete_def)
  show ?thesis
    unfolding u using MoveBy_update_started[OF st(1) dv en, of d a] c by simp
qed

lemma RotateTo_isComplete_stopped: "rt_stopped r \<Longrightarrow> RotateTo_isComplete r"
  by (simp add: RotateTo_isComplete_def split: option.splits)

lemma RotateTo_update_started:
  assumes "rt_started r" "rt_direction r = Some dir" "rt_currentNonCannonAngle r = Some c"
  shows "RotateTo_update d (r, a) =
     (if RotateTo_isComplete
           (r\<lparr>rt_currentNonCannonAngle := Some (c + (dir * rt_speed r) * (d / 1000))\<rparr>)
      then Inr (r\<lparr>rt_currentNonCannonAngle := Some (c + (dir * rt_speed r) * (d / 1000)),
                  rt_stopped := True\<rparr>, a\<lparr>rx := 0, rotation := rt_end r\<rparr>)
      else Inr (r\<lparr>rt_currentNonCannonAngle := Some (c + (dir * rt_speed r) * (d / 1000))\<rparr>,
                a\<lparr>rx := dir * rt_speed r\<rparr>))"
  using assms by (simp add: RotateTo_update_def Let_def)

lemma RotateTo_begin_fields:
  "rt_started (RotateTo_begin r a)" "rt_direction (RotateTo_begin r a) \<noteq> None"
  "rt_currentNonCannonAngle (RotateTo_begin r a) \<noteq> None"
  "rt_stopped (RotateTo_begin r a) = rt_stopped r" "rt_end (RotateTo_begin r a) = rt_end r"
  by (simp_all add: RotateTo_begin_def Let_def)

lemma RotateTo_update_returns:
  assumes "RotateTo_update d (r, a) = Inr (r', a')"
  shows "rt_started r' \<and> rt_direction r' \<noteq> None \<and> rt_currentNonCannonAngle r' \<noteq> None \<and>
         (RotateTo_isComplete r' \<longrightarrow> rt_stopped r' \<and> rx a' = 0 \<and> rotation a' = rt_end r')"
proof -
  define r1 where "r1 = (if rt_started r then r else RotateTo_begin r a)"
  have u: "RotateTo_update d (r1, a) = Inr (r', a')"
    using assms RotateTo_update_fresh[of r d a] by (auto simp: r1_def)
  have st: "rt_started r1" by (simp add: r1_def RotateTo_begin_fields)
  from u st obtain dir c where dir: "rt_direction r1 = Some dir"
    and c: "rt_currentNonCannonAngle r1 = Some c"
    by (cases "rt_direction r1"; cases "rt_currentNonCannonAngle r1")
      (auto simp: RotateTo_update_def)
  from u RotateTo_update_started[OF st dir c, of d a] st dir c show ?thesis
    by (auto split: if_splits)
qed

lemma RotateTo_settled:
  assumes u: "RotateTo_update d (r, a) = Inr (r', a')" and c: "RotateTo_isComplete r'"
  shows "\<exists>r''. RotateTo_update e (r', a') = Inr (r'', a') \<and> RotateTo_isComplete r''"
proof -
  from RotateTo_update_returns[OF u] c obtain dir cur where st: "rt_started r'"
    and dir: "rt_direction r' = Some dir" and cur: "rt_currentNonCannonAngle r' = Some cur"
    and sp: "rt_stopped r'" and a: "rx a' = 0" "rotation a' = rt_end r'" by auto
  let ?r2 = "r'\<lparr>rt_currentNonCannonAngle := Some (cur + (dir * rt_speed r') * (e / 1000))\<rparr>"
  have c2: "RotateTo_isComplete ?r2" using sp by (intro RotateTo_isComplete_stopped) simp
  have c3: "RotateTo_isComplete (?r2\<lparr>rt_stopped := True\<rparr>)"
    by (intro RotateTo_isComplete_stopped) simp
  have same: "a'\<lparr>rx := 0, rotation := rt_end r'\<rparr> = a'" using a by simp
  show ?thesis
    using RotateTo_update_started[OF st dir cur, of e a'] c2 c3 same by simp
qed

lemma RotateTo_update_stopped:
  assumes wf: "rt_started r \<longrightarrow> rt_direction r \<noteq> None \<and> rt_currentNonCannonAngle r \<noteq> None"
    and s: "rt_stopped r"
  shows "\<exists>r' a'. RotateTo_update d (r, a) = Inr (r', a') \<and> RotateTo_isComplete r' \<and>
           vel a' = vel a \<and> rx a' = 0 \<and> sx a' = sx a \<and> sy a' = sy a"
proof -
  define r1 where "r1 = (if rt_started r then r else RotateTo_begin r a)"
  have u: "RotateTo_update d (r, a) = RotateTo_update d (r1, a)"
    using RotateTo_update_fresh[of r d a] by (simp add: r1_def)
  have st: "rt_started r1" "rt_stopped r1" "rt_direction r1 \<noteq> None"
    "rt_currentNonCannonAngle r1 \<noteq> None"
    using wf s RotateTo_begin_fields[of r a] by (auto simp: r1_def)
  then obtain dir c where dir: "rt_direction r1 = Some dir"
    and c: "rt_currentNonCannonAngle r1 = Some c" by auto
  let ?r2 = "r1\<lparr>rt_currentNonCannonAngle := Some (c + (dir * rt_speed r1) * (d / 1000))\<rparr>"
  have c2: "RotateTo_isComplete ?r2" using st(2) by (intro RotateTo_isComplete_stopped) simp
  have c3: "RotateTo_isComplete (?r2\<lparr>rt_stopped := True\<rparr>)"
    by (intro RotateTo_isComplete_stopped) simp
  show ?thesis
    unfolding u using RotateTo_update_started[OF st(1) dir c, of d a] c2 c3 by simp
qed

lemma RotateBy_update_fresh:
  "\<not> rb_started r \<Longrightarrow> RotateBy_update d (r, a) = RotateBy_update d (RotateBy_begin r a, a)"
  by (simp add: RotateBy_update_def RotateBy_begin_def Let_def)

lemma RotateBy_isComplete_stopped: "rb_stopped r \<Longrightarrow> RotateBy_isComplete r"
  by (simp add: RotateBy_isComplete_def split: option.splits)

lemma RotateBy_update_started:
  assumes "rb_started r" "rb_direction r = Some dir" "rb_currentNonCannonAngle r = Some c"
    "rb_end r = Some en"
  shows "RotateBy_update d (r, a) =
     (if RotateBy_isComplete
           (r\<lparr>rb_currentNonCannonAngle := Some (c + (dir * rb_speed r) * (d / 1000))\<rparr>)
      then Inr (r\<lparr>rb_currentNonCannonAngle := Some (c + (dir * rb_speed r) * (d / 1000)),
                  rb_stopped := True\<rparr>, a\<lparr>rx := 0, rotation := en\<rparr>)
      else Inr (r\<lparr>rb_currentNonCannonAngle := Some (c + (dir * rb_speed r) * (d / 1000))\<rparr>,
                a\<lparr>rx := dir * rb_speed r\<rparr>))"
  using assms by (simp add: RotateBy_update_def Let_def)

lemma RotateBy_begin_fields:
  "rb_started (RotateBy_begin r a)" "rb_direction (RotateBy_begin r a) \<noteq> None"
  "rb_currentNonCannonAngle (RotateBy_begin r a) \<noteq> None"
  "rb_end (RotateBy_begin r a) \<noteq> None"
  "rb_stopped (RotateBy_begin r a) = rb_stopped r"
  by (simp_all add: RotateBy_begin_def Let_def)

lemma RotateBy_update_returns:
  assumes "RotateBy_update d (r, a) = Inr (r', a')"
  shows "rb_started r' \<and> rb_direction r' \<noteq> None \<and> rb_currentNonCannonAngle r' \<noteq> None \<and>
         rb_end r' \<noteq> None \<and>
         (RotateBy_isComplete r' \<longrightarrow> rb_stopped r' \<and> rx a' = 0 \<and> Some (rotation a') = rb_end r')"
proof -
  define r1 where "r1 = (if rb_started r then r else RotateBy_begin r a)"
  have u: "RotateBy_update d (r1, a) = Inr (r', a')"
    using assms RotateBy_update_fresh[of r d a] by (auto simp: r1_def)
  have st: "rb_started r1" by (simp add: r1_def RotateBy_begin_fields)
  from u st obtain dir c en where dir: "rb_direction r1 = Some dir"
    and c: "rb_currentNonCannonAngle r1 = Some c" and en: "rb_end r1 = Some en"
    by (cases "rb_direction r1"; cases "rb_currentNonCannonAngle r1"; cases "rb_end r1")
      (auto simp: RotateBy_update_def)
  from u RotateBy_update_started[OF st dir c en, of d a] st dir c en show ?thesis
    by (auto split: if_splits)
qed

lemma RotateBy_settled:
  assumes u: "RotateBy_update d (r, a) = Inr (r', a')" and c: "RotateBy_isComplete r'"
  shows "\<exists>r''. RotateBy_update e (r', a') = Inr (r'', a') \<and> RotateBy_isComplete r''"
proof -
  from RotateBy_update_returns[OF u] c obtain dir cur en where st: "rb_started r'"
    and dir: "rb_direction r' = Some dir" and cur: "rb_currentNonCannonAngle r' = Some cur"
    and en: "rb_end r' = Some en"
    and sp: "rb_stopped r'" and a: "rx a' = 0" "Some (rotation a') = rb_end r'" by auto
  let ?r2 = "r'\<lparr>rb_currentNonCannonAngle := Some (cur + (dir * rb_speed r') * (e / 1000))\<rparr>"
  have c2: "RotateBy_isComplete ?r2" using sp by (intro RotateBy_isComplete_stopped) simp
  have c3: "RotateBy_isComplete (?r2\<lparr>rb_stopped := True\<rparr>)"
    by (intro RotateBy_isComplete_stopped) simp
  have same: "a'\<lparr>rx := 0, rotation := en\<rparr> = a'" using a en by simp
  show ?thesis
    using RotateBy_update_started[OF st dir cur en, of e a'] c2 c3 same by simp
qed

lemma RotateBy_update_stopped:
  assumes wf: "rb_started r \<longrightarrow> rb_direction r \<noteq> None \<and> rb_currentNonCannonAngle r \<noteq> None \<and>
      rb_end r \<noteq> None"
    and s: "rb_stopped r"
  shows "\<exists>r' a'. RotateBy_update d (r, a) = Inr (r', a') \<and> RotateBy_isComplete r' \<and>
           vel a' = vel a \<and> rx a' = 0 \<and> sx a' = sx a \<and> sy a' = sy a"
proof -
  define r1 where "r1 = (if rb_started r then r else RotateBy_begin r a)"
  have u: "RotateBy_update d (r, a) = RotateBy_update d (r1, a)"
    using RotateBy_update_fresh[of r d a] by (simp add: r1_def)
  have st: "rb_started r1" "rb_stopped r1" "rb_direction r1 \<noteq> None"
    "rb_currentNonCannonAngle r1 \<noteq> None" "rb_end r1 \<noteq> None"
    using wf s RotateBy_begin_fields[of r a] by (auto simp: r1_def)
  then obtain dir c en where dir: "rb_direction r1 = Some dir"
    and c: "rb_currentNonCannonAngle r1 = Some c" and en: "rb_end r1 = Some en" by auto
  let ?r2 = "r1\<lparr>rb_currentNonCannonAngle := Some (c + (dir * rb_speed r1) * (d / 1000))\<rparr>"
  have c2: "RotateBy_isComplete ?r2" using st(2) by (intro RotateBy_isComplete_stopped) simp
  have c3: "RotateBy_isComplete (?r2\<lparr>rb_stopped := True\<rparr>)"
    by (intro RotateBy_isComplete_stopped) simp
  show ?thesis
    unfolding u using RotateBy_update_started[OF st(1) dir c en, of d a] c2 c3 by simp
qed

lemma ScaleTo_isComplete_velocity:
  "ScaleTo_isComplete s (a\<lparr>sx := u, sy := v\<rparr>) = ScaleTo_isComplete s a"
  by (simp add: ScaleTo_isComplete_def split: option.splits)

lemma ScaleTo_begin_fields:
  "st_started (ScaleTo_begin s a)" "st_startX (ScaleTo_begin s a) \<noteq> None"
  "st_startY (ScaleTo_begin s a) \<noteq> None" "st_distanceX (ScaleTo_begin s a) \<noteq> None"
  "st_distanceY (ScaleTo_begin s a) \<noteq> None" "st_stopped (ScaleTo_begin s a) = st_stopped s"
  by (simp_all add: ScaleTo_begin_def)

lemma ScaleTo_update_returns:
  assumes "ScaleTo_update d (s, a) = Inr (s', a')"
  shows "st_started s' \<and> st_startX s' \<noteq> None \<and> st_startY s' \<noteq> None \<and>
         st_distanceX s' \<noteq> None \<and> st_distanceY s' \<noteq> None \<and>
         (ScaleTo_isComplete s' a' \<longrightarrow>
            a' = a\<lparr>scale := vec (st_endX s') (st_endY s'), sx := 0, sy := 0\<rparr>)"
proof -
  define s1 where "s1 = (if st_started s then s else ScaleTo_begin s a)"
  have u: "ScaleTo_update d (s1, a) = Inr (s', a')"
    using assms ScaleTo_update_fresh[of s d a] by (auto simp: s1_def)
  have st: "st_started s1" by (simp add: s1_def ScaleTo_begin_fields)
  from u ScaleTo_update_undefined[OF st, of d a]
  obtain x0 y0 dx dy where o: "st_startX s1 = Some x0" "st_startY s1 = Some y0"
      "st_distanceX s1 = Some dx" "st_distanceY s1 = Some dy"
    by (cases "st_startX s1"; cases "st_startY s1"; cases "st_distanceX s1";
        cases "st_distanceY s1") auto
  from u ScaleTo_update_started[OF st o, of d a] st o show ?thesis
    by (auto split: if_splits simp: ScaleTo_isComplete_velocity)
qed

lemma ScaleTo_settled:
  assumes u: "ScaleTo_update d (s, a) = Inr (s', a')" and c: "ScaleTo_isComplete s' a'"
  shows "ScaleTo_update e (s', a') = Inr (s', a')"
proof -
  from ScaleTo_update_returns[OF u] c obtain x0 y0 dx dy where st: "st_started s'"
    and o: "st_startX s' = Some x0" "st_startY s' = Some y0"
      "st_distanceX s' = Some dx" "st_distanceY s' = Some dy"
    and a': "a' = a\<lparr>scale := vec (st_endX s') (st_endY s'), sx := 0, sy := 0\<rparr>" by auto
  have same: "a'\<lparr>scale := vec (st_endX s') (st_endY s'), sx := 0, sy := 0\<rparr> = a'"
    by (simp add: a')
  show ?thesis
    using ScaleTo_update_started[OF st o, of e a'] c same by simp
qed

lemma ScaleTo_update_stopped:
  assumes wf: "st_started s \<longrightarrow> st_startX s \<noteq> None \<and> st_startY s \<noteq> None \<and>
      st_distanceX s \<noteq> None \<and> st_distanceY s \<noteq> None"
    and sp: "st_stopped s"
  shows "\<exists>s' a'. ScaleTo_update d (s, a) = Inr (s', a') \<and> ScaleTo_isComplete s' a' \<and>
           vel a' = vel a \<and> rx a' = rx a \<and> sx a' = 0 \<and> sy a' = 0"
proof -
  define s1 where "s1 = (if st_started s then s else ScaleTo_begin s a)"
  have u: "ScaleTo_update d (s, a) = ScaleTo_update d (s1, a)"
    using ScaleTo_update_fresh[of s d a] by (simp add: s1_def)
  have st: "st_started s1" "st_stopped s1" "st_startX s1 \<noteq> None" "st_startY s1 \<noteq> None"
    "st_distanceX s1 \<noteq> None" "st_distanceY s1 \<noteq> None"
    using wf sp ScaleTo_begin_fields[of s a] by (auto simp: s1_def)
  then obtain x0 y0 dx dy where o: "st_startX s1 = Some x0" "st_startY s1 = Some y0"
      "st_distanceX s1 = Some dx" "st_distanceY s1 = Some dy" by auto
  have c: "\<And>b. ScaleTo_isComplete s1 b" using st(2) by (simp add: ScaleTo_isComplete_def)
  show ?thesis
    unfolding u using ScaleTo_update_started[OF st(1) o, of d a] c by simp
qed

lemma ScaleBy_update_fresh:
  "\<not> sb_started s \<Longrightarrow> ScaleBy_update d (s, a) = ScaleBy_update d (ScaleBy_begin s a, a)"
  by (simp add: ScaleBy_update_def ScaleBy_begin_def Let_def)

lemma ScaleBy_isComplete_velocity:
  "ScaleBy_isComplete s (a\<lparr>sx := u, sy := v\<rparr>) = ScaleBy_isComplete s a"
  by (simp add: ScaleBy_isComplete_def split: option.splits)

lemma ScaleBy_update_started:
  assumes "sb_started s" "sb_directionX s = Some dx" "sb_directionY s = Some dy"
    "sb_endScale s = Some es"
  shows "ScaleBy_update d (s, a) =
     Inr (s, if ScaleBy_isComplete s a then a\<lparr>scale := es, sx := 0, sy := 0\<rparr>
             else a\<lparr>sx := sb_speedX s * dx, sy := sb_speedY s * dy\<rparr>)"
  using assms by (simp add: ScaleBy_update_def Let_def ScaleBy_isComplete_velocity)

lemma ScaleBy_begin_fields:
  "sb_started (ScaleBy_begin s a)" "sb_directionX (ScaleBy_begin s a) \<noteq> None"
  "sb_directionY (ScaleBy_begin s a) \<noteq> None" "sb_endScale (ScaleBy_begin s a) \<noteq> None"
  "sb_stopped (ScaleBy_begin s a) = sb_stopped s"
  by (simp_all add: ScaleBy_begin_def Let_def)

lemma ScaleBy_update_returns:
  assumes "ScaleBy_update d (s, a) = Inr (s', a')"
  shows "sb_started s' \<and> sb_directionX s' \<noteq> None \<and> sb_directionY s' \<noteq> None \<and>
         (\<exists>es. sb_endScale s' = Some es \<and>
            (ScaleBy_isComplete s' a' \<longrightarrow> a' = a\<lparr>scale := es, sx := 0, sy := 0\<rparr>))"
proof -
  define s1 where "s1 = (if sb_started s then s else ScaleBy_begin s a)"
  have u: "ScaleBy_update d (s1, a) = Inr (s', a')"
    using assms ScaleBy_update_fresh[of s d a] by (auto simp: s1_def)
  have st: "sb_started s1" by (simp add: s1_def ScaleBy_begin_fields)
  from u st obtain dx dy es where o: "sb_directionX s1 = Some dx" "sb_directionY s1 = Some dy"
      "sb_endScale s1 = Some es"
    by (cases "sb_directionX s1"; cases "sb_directionY s1"; cases "sb_endScale s1")
      (auto simp: ScaleBy_update_def)
  from u ScaleBy_update_started[OF st o, of d a] st o show ?thesis
    by (auto split: if_splits simp: ScaleBy_isComplete_velocity)
qed

lemma ScaleBy_settled:
  assumes u: "ScaleBy_update d (s, a) = Inr (s', a')" and c: "ScaleBy_isComplete s' a'"
  shows "ScaleBy_update e (s', a') = Inr (s', a')"
proof -
  from ScaleBy_update_returns[OF u] c obtain dx dy es where st: "sb_started s'"
    and o: "sb_directionX s' = Some dx" "sb_directionY s' = Some dy" "sb_endScale s' = Some es"
    and a': "a' = a\<lparr>scale := es, sx := 0, sy := 0\<rparr>" by auto
  have same: "a'\<lparr>scale := es, sx := 0, sy := 0\<rparr> = a'" by (simp add: a')
  show ?thesis
    using ScaleBy_update_started[OF st o, of e a'] c same by simp
qed

lemma ScaleBy_update_stopped:
  assumes wf: "sb_started s \<longrightarrow> sb_directionX s \<noteq> None \<and> sb_directionY s \<noteq> None \<and>
      sb_endScale s \<noteq> None"
    and sp: "sb_stopped s"
  shows "\<exists>s' a'. ScaleBy_update d (s, a) = Inr (s', a') \<and> ScaleBy_isComplete s' a' \<and>
           vel a' = vel a \<and> rx a' = rx a \<and> sx a' = 0 \<and> sy a' = 0"
proof -
  define s1 where "s1 = (if sb_started s then s else ScaleBy_begin s a)"
  have u: "ScaleBy_update d (s, a) = ScaleBy_update d (s1, a)"
    using ScaleBy_update_fresh[of s d a] by (simp add: s1_def)
  have st: "sb_started s1" "sb_stopped s1" "sb_directionX s1 \<noteq> None"
    "sb_directionY s1 \<noteq> None" "sb_endScale s1 \<noteq> None"
    using wf sp ScaleBy_begin_fields[of s a] by (auto simp: s1_def)
  then obtain dx dy es where o: "sb_directionX s1 = Some dx" "sb_directionY s1 = Some dy"
      "sb_endScale s1 = Some es" by auto
  have c: "\<And>b. ScaleBy_isComplete s1 b" using st(2) by (simp add: ScaleBy_isComplete_def)
  show ?thesis
    unfolding u using ScaleBy_update_started[OF st(1) o, of d a] c by simp
qed

lemma Delay_settled:
  assumes "Delay_update d (s, a) = Inr (s', a')" "Delay_isComplete s'" "0 \<le> e"
  shows "\<exists>s''. Delay_update e (s', a') = Inr (s'', a') \<and> Delay_isComplete s''"
  using assms by (auto simp: Delay_update_def Delay_isComplete_def Let_def)

lemma Delay_update_stopped:
  assumes "dl_stopped s"
  shows "\<exists>s'. Delay_update d (s, a) = Inr (s', a) \<and> Delay_isComplete s'"
  using assms by (simp add: Delay_update_def Delay_isComplete_def Let_def)

lemma Blink_update_result:
  "\<exists>b' a'. Blink_update d (b, a) = Inr (b', a') \<and>
     bl_stopped b' = bl_stopped b \<and> bl_totalTime b' = bl_totalTime b + d \<and>
     bl_duration b' = bl_duration b \<and> (\<forall>w. a'\<lparr>visible := w\<rparr> = a\<lparr>visible := w\<rparr>) \<and>
     (Blink_isComplete b' \<longrightarrow> visible a')"
  by (simp add: Blink_update_def Let_def Blink_isComplete_def)

lemma Blink_settled:
  assumes u: "Blink_update d (b, a) = Inr (b', a')" and c: "Blink_isComplete b'" and e: "0 \<le> e"
  shows "\<exists>b''. Blink_update e (b', a') = Inr (b'', a') \<and> Blink_isComplete b''"
proof -
  from Blink_update_result[of d b a] u c have v: "visible a'" by auto
  from Blink_update_result[of e b' a'] obtain b'' a'' where
    u2: "Blink_update e (b', a') = Inr (b'', a'')"
    and f: "bl_stopped b'' = bl_stopped b'" "bl_totalTime b'' = bl_totalTime b' + e"
      "bl_duration b'' = bl_duration b'"
    and w: "\<forall>w. a''\<lparr>visible := w\<rparr> = a'\<lparr>visible := w\<rparr>"
    and cv: "Blink_isComplete b'' \<longrightarrow> visible a''" by blast
  have c2: "Blink_isComplete b''" using c f e by (auto simp: Blink_isComplete_def)
  with cv have "visible a''" by simp
  with w[rule_format, of True] v have "a'' = a'"
    by (metis (full_types) Actor.surjective Actor.update_convs(9))
  with u2 c2 show ?thesis by simp
qed

lemma Blink_update_stopped:
  assumes "bl_stopped b"
  shows "\<exists>b' a'. Blink_update d (b, a) = Inr (b', a') \<and> Blink_isComplete b' \<and>
           vel a' = vel a \<and> rx a' = rx a \<and> sx a' = sx a \<and> sy a' = sy a"
  using assms by (simp add: Blink_update_def Let_def Blink_isComplete_def)

lemma Fade_settled:
  assumes u: "Fade_update d (f, a) = Inr (f', a')" and c: "Fade_isComplete f' a'"
  shows "\<exists>f''. Fade_update e (f', a') = Inr (f'', a') \<and> Fade_isComplete f'' a'"
proof -
  from Fade_update_result[of d f a] obtain f0 a0 o1 where
    u0: "Fade_update d (f, a) = Inr (f0, a0)"
    and en0: "fd_endOpacity f0 = fd_endOpacity f" and sp0: "fd_stopped f0 = fd_stopped f"
    and a0: "a0 = a\<lparr>opacity := (if fd_stopped f \<or> \<bar>o1 - fd_endOpacity f\<bar> < 0.05
                                   then fd_endOpacity f else o1)\<rparr>"
    by blast
  from u u0 have same: "f0 = f'" "a0 = a'" by simp_all
  note en = en0[unfolded same] and sp = sp0[unfolded same] and a' = a0[unfolded same]
  have op: "opacity a' = fd_endOpacity f'"
  proof (cases "fd_stopped f \<or> \<bar>o1 - fd_endOpacity f\<bar> < 0.05")
    case True
    then show ?thesis by (simp add: a' en)
  next
    case False
    then have "opacity a' = o1" by (simp add: a')
    with c False en sp show ?thesis by (simp add: Fade_isComplete_def)
  qed
  from Fade_update_result[of e f' a'] obtain f'' a'' o2 where
    u2: "Fade_update e (f', a') = Inr (f'', a'')"
    and en2: "fd_endOpacity f'' = fd_endOpacity f'" and sp2: "fd_stopped f'' = fd_stopped f'"
    and o2: "o2 = (if fd_speed f' > 0
           then opacity a' + (fd_multiplier f'' * (\<bar>opacity a' - fd_endOpacity f'\<bar> * e)) / fd_speed f'
           else opacity a')"
    and a'': "a'' = a'\<lparr>opacity := (if fd_stopped f' \<or> \<bar>o2 - fd_endOpacity f'\<bar> < 0.05
                                   then fd_endOpacity f' else o2)\<rparr>"
    by blast
  have "o2 = fd_endOpacity f'" unfolding o2 op by simp
  then have "a'' = a'" unfolding a'' using op by simp
  moreover have "Fade_isComplete f'' a'" using op en2 by (simp add: Fade_isComplete_def)
  ultimately show ?thesis using u2 by simp
qed

lemma Fade_update_stopped:
  assumes "fd_stopped f"
  shows "\<exists>f' a'. Fade_update d (f, a) = Inr (f', a') \<and> Fade_isComplete f' a' \<and>
           vel a' = vel a \<and> rx a' = rx a \<and> sx a' = sx a \<and> sy a' = sy a"
proof -
  from Fade_update_result[of d f a] obtain f' a' o1 where
    u: "Fade_update d (f, a) = Inr (f', a')" and sp: "fd_stopped f' = fd_stopped f"
    and a': "a' = a\<lparr>opacity := (if fd_stopped f \<or> \<bar>o1 - fd_endOpacity f\<bar> < 0.05
                                   then fd_endOpacity f else o1)\<rparr>"
    by blast
  with assms show ?thesis by (simp add: Fade_isComplete_def)
qed

lemma EaseTo_update_late:
  assumes "\<not> (if ez_initialized z then ez_currentLerpTime z else 0) + d < ez_lerpDuration z"
  shows "EaseTo_update d (z, a) =
     Inr ((if ez_initialized z then z else (EaseTo_initialize z a)\<lparr>ez_initialized := True\<rparr>)
            \<lparr>ez_currentLerpTime := (if ez_initialized z then ez_currentLerpTime z else 0) + d\<rparr>,
          a\<lparr>pos := vec (vec_x (ez_lerpEnd z)) (vec_y (ez_lerpEnd z)), vel := vec 0 0\<rparr>)"
  using assms by (cases "ez_initialized z") (simp_all add: EaseTo_update_def EaseTo_initialize_def Let_def)

lemma EaseTo_update_early:
  assumes "(if ez_initialized z then ez_currentLerpTime z else 0) + d < ez_lerpDuration z"
  shows "\<exists>a'. EaseTo_update d (z, a) =
     Inr ((if ez_initialized z then z else (EaseTo_initialize z a)\<lparr>ez_initialized := True\<rparr>)
            \<lparr>ez_currentLerpTime := (if ez_initialized z then ez_currentLerpTime z else 0) + d\<rparr>, a')"
  using assms by (cases "ez_initialized z") (simp_all add: EaseTo_update_def EaseTo_initialize_def Let_def)

lemma EaseTo_settled:
  assumes u: "EaseTo_update d (z, a) = Inr (z', a')" and c: "EaseTo_isComplete z' a'"
    and t: "ez_lerpDuration z' \<le> ez_currentLerpTime z'" and e: "0 \<le> e"
  shows "\<exists>z''. EaseTo_update e (z', a') = Inr (z'', a') \<and> EaseTo_isComplete z'' a' \<and>
           ez_lerpDuration z'' \<le> ez_currentLerpTime z''"
proof -
  let ?t = "(if ez_initialized z then ez_currentLerpTime z else 0) + d"
  let ?z2 = "(if ez_initialized z then z else (EaseTo_initialize z a)\<lparr>ez_initialized := True\<rparr>)
            \<lparr>ez_currentLerpTime := ?t\<rparr>"
  have z': "z' = ?z2"
    using u EaseTo_update_late[of z d a] EaseTo_update_early[of z d a]
    by (cases "?t < ez_lerpDuration z") auto
  have f: "ez_currentLerpTime z' = ?t" "ez_lerpDuration z' = ez_lerpDuration z"
    "ez_lerpEnd z' = ez_lerpEnd z" "ez_initialized z'"
    unfolding z' by (simp_all add: EaseTo_initialize_def Let_def)
  from t f have late: "\<not> ?t < ez_lerpDuration z" by simp
  from EaseTo_update_late[OF late, of a] u
  have a': "a' = a\<lparr>pos := vec (vec_x (ez_lerpEnd z')) (vec_y (ez_lerpEnd z')), vel := vec 0 0\<rparr>"
    by (auto simp: EaseTo_initialize_def Let_def)
  have late2: "\<not> (if ez_initialized z' then ez_currentLerpTime z' else 0) + e < ez_lerpDuration z'"
    using t e f(4) by simp
  let ?z3 = "z'\<lparr>ez_currentLerpTime := ez_currentLerpTime z' + e\<rparr>"
  have u2: "EaseTo_update e (z', a') =
      Inr (?z3, a'\<lparr>pos := vec (vec_x (ez_lerpEnd z')) (vec_y (ez_lerpEnd z')), vel := vec 0 0\<rparr>)"
    using EaseTo_update_late[OF late2, of a'] f(4) by simp
  have same: "a'\<lparr>pos := vec (vec_x (ez_lerpEnd z')) (vec_y (ez_lerpEnd z')), vel := vec 0 0\<rparr> = a'"
    by (simp add: a')
  have "EaseTo_isComplete ?z3 a'" using c by (simp add: EaseTo_isComplete_def)
  with u2 same t e show ?thesis by simp
qed

lemma captured_new:
  "captured (AEaseTo (EaseTo_new x y duration f))"
  "MoveTo_new x y speed = Inr mt \<Longrightarrow> captured (AMoveTo mt)"
  "MoveBy_new x y speed = Inr mb \<Longrightarrow> captured (AMoveBy mb)"
  "captured (ARotateTo (RotateTo_new angle speed t))"
  "captured (ARotateBy (RotateBy_new angle speed t))"
  "captured (AScaleTo (ScaleTo_new x y speedX speedY))"
  "captured (AScaleBy (ScaleBy_new x y speed))"
  "captured (ADelay (Delay_new delay))"
  "captured (ABlink (Blink_new timeVisible timeNotVisible numBlinks))"
  "captured (AFade (Fade_new endOpacity speed))"
  "captured (ACallMethod (CallMethod_new method))"
  by (auto simp: MoveTo_new_def MoveBy_new_def RotateTo_new_def RotateBy_new_def
      ScaleTo_new_def ScaleBy_new_def split: if_splits)

lemma captured_reset: "captured (reset s)"
  by (cases s)
    (simp_all add: MoveTo_reset_def MoveBy_reset_def RotateTo_reset_def RotateBy_reset_def
      ScaleTo_reset_def ScaleBy_reset_def)

lemma captured_stop: "captured s \<Longrightarrow> captured (fst (stop (s, a)))"
  by (cases s)
    (simp_all add: lift_pair_def EaseTo_stop_def MoveTo_stop_def MoveBy_stop_def
      RotateTo_stop_def RotateBy_stop_def ScaleTo_stop_def ScaleBy_stop_def Delay_stop_def
      Blink_stop_def Fade_stop_def CallMethod_stop_def)

lemma captured_update:
  assumes "update d (s, a) = Inr (s', a')"
  shows "captured s'"
proof (cases s)
  case (AMoveTo z)
  with assms obtain z' where s': "s' = AMoveTo z'" and uz: "MoveTo_update d (z, a) = Inr (z', a')"
    by (auto simp: lift_result_def split: sum.splits)
  from MoveTo_update_returns[OF uz] s' show ?thesis by auto
next
  case (AMoveBy z)
  with assms obtain z' where s': "s' = AMoveBy z'" and uz: "MoveBy_update d (z, a) = Inr (z', a')"
    by (auto simp: lift_result_def split: sum.splits)
  from MoveBy_update_returns[OF uz] s' show ?thesis by auto
next
  case (ARotateTo z)
  with assms obtain z' where s': "s' = ARotateTo z'" and uz: "RotateTo_update d (z, a) = Inr (z', a')"
    by (auto simp: lift_result_def split: sum.splits)
  from RotateTo_update_returns[OF uz] s' show ?thesis by auto
next
  case (ARotateBy z)
  with assms obtain z' where s': "s' = ARotateBy z'" and uz: "RotateBy_update d (z, a) = Inr (z', a')"
    by (auto simp: lift_result_def split: sum.splits)
  from RotateBy_update_returns[OF uz] s' show ?thesis by auto
next
  case (AScaleTo z)
  with assms obtain z' where s': "s' = AScaleTo z'" and uz: "ScaleTo_update d (z, a) = Inr (z', a')"
    by (auto simp: lift_result_def split: sum.splits)
  from ScaleTo_update_returns[OF uz] s' show ?thesis by auto
next
  case (AScaleBy z)
  with assms obtain z' where s': "s' = AScaleBy z'" and uz: "ScaleBy_update d (z, a) = Inr (z', a')"
    by (auto simp: lift_result_def split: sum.splits)
  from ScaleBy_update_returns[OF uz] s' show ?thesis by auto
next
  case (AEaseTo z)
  with assms obtain z' where "s' = AEaseTo z'"
    by (auto simp: lift_result_def split: sum.splits)
  then show ?thesis by simp
next
  case (ADelay z)
  with assms obtain z' where "s' = ADelay z'"
    by (auto simp: lift_result_def split: sum.splits)
  then show ?thesis by simp
next
  case (ABlink z)
  with assms obtain z' where "s' = ABlink z'"
    by (auto simp: lift_result_def split: sum.splits)
  then show ?thesis by simp
next
  case (AFade z)
  with assms obtain z' where "s' = AFade z'"
    by (auto simp: lift_result_def split: sum.splits)
  then show ?thesis by simp
next
  case (ACallMethod z)
  with assms obtain z' where "s' = ACallMethod z'"
    by (auto simp: lift_result_def split: sum.splits)
  then show ?thesis by simp
qed

lemma update_settled:
  assumes u: "update d (s, a) = Inr (s', a')" and c: "isComplete s' a'"
    and sn: "snaps_on_completion s'" and e: "0 \<le> e"
  shows "\<exists>s''. update e (s', a') = Inr (s'', a') \<and> isComplete s'' a' \<and> snaps_on_completion s''"
proof (cases s)
  case (AEaseTo z)
  with u obtain z' where s': "s' = AEaseTo z'" and uz: "EaseTo_update d (z, a) = Inr (z', a')"
    by (auto simp: lift_result_def split: sum.splits)
  from EaseTo_settled[OF uz, of e] c sn e s' show ?thesis
    by (auto simp: lift_result_def)
next
  case (AMoveTo z)
  with u obtain z' where s': "s' = AMoveTo z'" and uz: "MoveTo_update d (z, a) = Inr (z', a')"
    by (auto simp: lift_result_def split: sum.splits)
  from MoveTo_settled[OF uz, of e] c s' show ?thesis
    by (auto simp: lift_result_def)
next
  case (AMoveBy z)
  with u obtain z' where s': "s' = AMoveBy z'" and uz: "MoveBy_update d (z, a) = Inr (z', a')"
    by (auto simp: lift_result_def split: sum.splits)
  from MoveBy_settled[OF uz, of e] c s' show ?thesis
    by (auto simp: lift_result_def)
next
  case (ARotateTo z)
  with u obtain z' where s': "s' = ARotateTo z'" and uz: "RotateTo_update d (z, a) = Inr (z', a')"
    by (auto simp: lift_result_def split: sum.splits)
  from RotateTo_settled[OF uz, of e] c s' show ?thesis
    by (auto simp: lift_result_def)
next
  case (ARotateBy z)
  with u obtain z' where s': "s' = ARotateBy z'" and uz: "RotateBy_update d (z, a) = Inr (z', a')"
    by (auto simp: lift_result_def split: sum.splits)
  from RotateBy_settled[OF uz, of e] c s' show ?thesis
    by (auto simp: lift_result_def)
next
  case (AScaleTo z)
  with u obtain z' where s': "s' = AScaleTo z'" and uz: "ScaleTo_update d (z, a) = Inr (z', a')"
    by (auto simp: lift_result_def split: sum.splits)
  from ScaleTo_settled[OF uz, of e] c s' show ?thesis
    by (auto simp: lift_result_def)
next
  case (AScaleBy z)
  with u obtain z' where s': "s' = AScaleBy z'" and uz: "ScaleBy_update d (z, a) = Inr (z', a')"
    by (auto simp: lift_result_def split: sum.splits)
  from ScaleBy_settled[OF uz, of e] c s' show ?thesis
    by (auto simp: lift_result_def)
next
  case (ADelay z)
  with u obtain z' where s': "s' = ADelay z'" and uz: "Delay_update d (z, a) = Inr (z', a')"
    by (auto simp: lift_result_def split: sum.splits)
  from Delay_settled[OF uz _ e] c s' show ?thesis
    by (auto simp: lift_result_def)
next
  case (ABlink z)
  with u obtain z' where s': "s' = ABlink z'" and uz: "Blink_update d (z, a) = Inr (z', a')"
    by (auto simp: lift_result_def split: sum.splits)
  from Blink_settled[OF uz _ e] c s' show ?thesis
    by (auto simp: lift_result_def)
next
  case (AFade z)
  with u obtain z' where s': "s' = AFade z'" and uz: "Fade_update d (z, a) = Inr (z', a')"
    by (auto simp: lift_result_def split: sum.splits)
  from Fade_settled[OF uz, of e] c s' show ?thesis
    by (auto simp: lift_result_def)
next
  case (ACallMethod z)
  with u sn show ?thesis
    by (auto simp: lift_result_def split: sum.splits)
qed

lemma run_updates_settled:
  assumes "update d (s, a) = Inr (s', a')" "isComplete s' a'" "snaps_on_completion s'"
    "\<forall>e\<in>set ds. 0 \<le> e"
  shows "\<exists>s''. run_updates update ds (s', a') = Inr (s'', a') \<and> isComplete s'' a'"
  using assms
proof (induction ds arbitrary: d s s' a)
  case Nil
  then show ?case by simp
next
  case (Cons e es)
  from Cons.prems have e: "0 \<le> e" and es: "\<forall>e\<in>set es. 0 \<le> e" by simp_all
  from update_settled[OF Cons.prems(1-3) e] obtain s2 where
    u2: "update e (s', a') = Inr (s2, a')" and c2: "isComplete s2 a'"
    and sn2: "snaps_on_completion s2" by blast
  from Cons.IH[OF u2 c2 sn2 es] u2 show ?case by simp
qed

lemma update_after_stop:
  assumes cap: "captured s" and k: "completes_in_update s"
  shows "\<exists>s' a'. update d (stop (s, a)) = Inr (s', a') \<and> isComplete s' a' \<and>
           snaps_on_completion s' \<and>
           vel a' = vel (snd (stop (s, a))) \<and> rx a' = rx (snd (stop (s, a))) \<and>
           sx a' = sx (snd (stop (s, a))) \<and> sy a' = sy (snd (stop (s, a)))"
proof (cases s)
  case (AEaseTo z)
  with k show ?thesis by simp
next
  case (ACallMethod z)
  with k show ?thesis by simp
next
  case (AMoveTo z)
  with MoveTo_update_stopped[of "z\<lparr>mt_stopped := True\<rparr>" d "snd (MoveTo_stop (z, a))"] cap show ?thesis
    by (auto simp: MoveTo_stop_def lift_pair_def lift_result_def)
next
  case (AMoveBy z)
  with MoveBy_update_stopped[of "z\<lparr>mb_stopped := True\<rparr>" d "snd (MoveBy_stop (z, a))"] cap show ?thesis
    by (auto simp: MoveBy_stop_def lift_pair_def lift_result_def)
next
  case (ARotateTo z)
  with RotateTo_update_stopped[of "z\<lparr>rt_stopped := True\<rparr>" d "snd (RotateTo_stop (z, a))"] cap show ?thesis
    by (auto simp: RotateTo_stop_def lift_pair_def lift_result_def)
next
  case (ARotateBy z)
  with RotateBy_update_stopped[of "z\<lparr>rb_stopped := True\<rparr>" d "snd (RotateBy_stop (z, a))"] cap show ?thesis
    by (auto simp: RotateBy_stop_def lift_pair_def lift_result_def)
next
  case (AScaleTo z)
  with ScaleTo_update_stopped[of "z\<lparr>st_stopped := True\<rparr>" d "snd (ScaleTo_stop (z, a))"] cap show ?thesis
    by (auto simp: ScaleTo_stop_def lift_pair_def lift_result_def)
next
  case (AScaleBy z)
  with ScaleBy_update_stopped[of "z\<lparr>sb_stopped := True\<rparr>" d "snd (ScaleBy_stop (z, a))"] cap show ?thesis
    by (auto simp: ScaleBy_stop_def lift_pair_def lift_result_def)
next
  case (ADelay z)
  with Delay_update_stopped[of "z\<lparr>dl_stopped := True\<rparr>" d a] cap show ?thesis
    by (auto simp: Delay_stop_def lift_pair_def lift_result_def)
next
  case (ABlink z)
  with Blink_update_stopped[of "z\<lparr>bl_stopped := True\<rparr>" d "snd (Blink_stop (z, a))"] cap show ?thesis
    by (auto simp: Blink_stop_def lift_pair_def lift_result_def)
next
  case (AFade z)
  with Fade_update_stopped[of "z\<lparr>fd_stopped := True\<rparr>" d a] cap show ?thesis
    by (auto simp: Fade_stop_def lift_pair_def lift_result_def)
qed

text \<open>
  The sibling behaviours do tolerate the late tick.  For \<^verbatim>\<open>MoveTo\<close>, \<^verbatim>\<open>MoveBy\<close>,
  \<^verbatim>\<open>RotateTo\<close>, \<^verbatim>\<open>RotateBy\<close>, \<^verbatim>\<open>ScaleTo\<close>, \<^verbatim>\<open>ScaleBy\<close>, \<^verbatim>\<open>Delay\<close>, \<^verbatim>\<open>Blink\<close> and
  \<^verbatim>\<open>Fade\<close>, whose \<^verbatim>\<open>update\<close> closes with the test of \<^verbatim>\<open>isComplete\<close> or writes no
  velocity, updates after \<^verbatim>\<open>stop\<close> with non-negative elapsed times return without error
  and leave the velocity, the angular velocity and the scale velocity of the target as
  \<^verbatim>\<open>stop\<close> left them.
\<close>

lemma update_after_stop_siblings:
  assumes "captured s" and "completes_in_update s" and "\<forall>e\<in>set ds. 0 \<le> e"
  shows "\<exists>s' a'. run_updates update ds (stop (s, a)) = Inr (s', a') \<and>
           vel a' = vel (snd (stop (s, a))) \<and> rx a' = rx (snd (stop (s, a))) \<and>
           sx a' = sx (snd (stop (s, a))) \<and> sy a' = sy (snd (stop (s, a)))"
proof (cases ds)
  case Nil
  then show ?thesis by (cases "stop (s, a)") simp
next
  case (Cons d es)
  obtain s0 a0 where st: "stop (s, a) = (s0, a0)" by (cases "stop (s, a)")
  from update_after_stop[OF assms(1,2), of d a] st obtain s1 a1 where
    u: "update d (s0, a0) = Inr (s1, a1)" and c: "isComplete s1 a1"
    and sn: "snaps_on_completion s1"
    and v: "vel a1 = vel a0" "rx a1 = rx a0" "sx a1 = sx a0" "sy a1 = sy a0"
    by auto
  from assms(3) Cons have es: "\<forall>e\<in>set es. 0 \<le> e" by simp
  from run_updates_settled[OF u c sn es] obtain s2 where
    "run_updates update es (s1, a1) = Inr (s2, a1)" by blast
  with u v st Cons show ?thesis by simp
qed

text \<open>
  C5.  The code does not do what the claim says for \<^verbatim>\<open>EaseTo\<close> and \<^verbatim>\<open>CallMethod\<close>.
  \<^verbatim>\<open>EaseTo.update\<close> never consults \<^verbatim>\<open>_stopped\<close> or \<^verbatim>\<open>isComplete\<close>: for an actor at the
  origin, \<^verbatim>\<open>new EaseTo(actor, 100, 0, 1000, linear)\<close> that is stopped, which zeroes the
  velocity and makes \<^verbatim>\<open>isComplete\<close> true, and then updated with 500 ms sets the velocity
  of the actor to \<open>(100, 0)\<close>.  \<^verbatim>\<open>CallMethod.update\<close> never consults \<^verbatim>\<open>_hasBeenCalled\<close>:
  a callback that has run once runs a second time in the update after \<^verbatim>\<open>stop\<close>.
\<close>

theorem EaseTo_update_after_stop_sets_velocity:
  "vel (snd (EaseTo_stop (EaseTo_new 100 0 1000 Linear, Actor_new))) = vec 0 0 \<and>
   EaseTo_isComplete (fst (EaseTo_stop (EaseTo_new 100 0 1000 Linear, Actor_new)))
     (snd (EaseTo_stop (EaseTo_new 100 0 1000 Linear, Actor_new))) \<and>
   map_option vel (actor_after (EaseTo_update 500
     (EaseTo_stop (EaseTo_new 100 0 1000 Linear, Actor_new)))) = Some (vec 100 0) \<and>
   CallMethod_update 16 (CallMethod_new spin_up, Actor_new) =
     Inr ((CallMethod_new spin_up)\<lparr>cm_hasBeenCalled := True\<rparr>, Actor_new\<lparr>rx := 1\<rparr>) \<and>
   rx (snd (CallMethod_stop
     ((CallMethod_new spin_up)\<lparr>cm_hasBeenCalled := True\<rparr>, Actor_new\<lparr>rx := 1\<rparr>))) = 1 \<and>
   map_option rx (actor_after (CallMethod_update 16 (CallMethod_stop
     ((CallMethod_new spin_up)\<lparr>cm_hasBeenCalled := True\<rparr>, Actor_new\<lparr>rx := 1\<rparr>)))) = Some 2"
  by (simp add: EaseTo_stop_def EaseTo_new_def EaseTo_update_def EaseTo_initialize_def
      EaseTo_isComplete_def Actor_new_def Linear_def actor_after_def vec_def Let_def
      CallMethod_update_def CallMethod_stop_def CallMethod_new_def spin_up_def)

text \<open>
  C6, as stated, fails.  A \<^verbatim>\<open>Fade\<close> to opacity 1 that is stopped while the opacity is 0
  reports complete, and its next update takes the opacity from 0 to 1.
\<close>

theorem update_after_complete_counterexample:
  "Fade_isComplete (fst (Fade_stop (Fade_new 1 200, Actor_new\<lparr>opacity := 0\<rparr>)))
     (snd (Fade_stop (Fade_new 1 200, Actor_new\<lparr>opacity := 0\<rparr>))) \<and>
   opacity (snd (Fade_stop (Fade_new 1 200, Actor_new\<lparr>opacity := 0\<rparr>))) = 0 \<and>
   map_option opacity (actor_after (Fade_update 20
     (Fade_stop (Fade_new 1 200, Actor_new\<lparr>opacity := 0\<rparr>)))) = Some 1"
  by (simp add: Fade_stop_def Fade_new_def Fade_update_def Fade_begin_def Fade_isComplete_def
      Actor_new_def actor_after_def Let_def)

text \<open>
  C6, amended.  Once \<^verbatim>\<open>isComplete\<close> holds of what an update has returned, and that update
  was one that snaps (any update of \<^verbatim>\<open>MoveTo\<close>, \<^verbatim>\<open>MoveBy\<close>, \<^verbatim>\<open>RotateTo\<close>, \<^verbatim>\<open>RotateBy\<close>,
  \<^verbatim>\<open>ScaleTo\<close>, \<^verbatim>\<open>ScaleBy\<close>, \<^verbatim>\<open>Delay\<close>, \<^verbatim>\<open>Blink\<close> and \<^verbatim>\<open>Fade\<close>; an update of \<^verbatim>\<open>EaseTo\<close>
  whose timer has reached the duration), any number of further updates with non-negative
  elapsed times return without error, leave every field of the target as it is, and
  leave the behaviour complete.
\<close>

theorem update_after_completing_update:
  assumes "update d (s, a) = Inr (s', a')" and "isComplete s' a'"
    and "snaps_on_completion s'" and "\<forall>e\<in>set ds. 0 \<le> e"
  shows "\<exists>s''. run_updates update ds (s', a') = Inr (s'', a') \<and> isComplete s'' a'"
  using assms by (rule run_updates_settled)

theorem update_after_completing_update_witness:
  "update 20 (AFade (Fade_new 1 200), Actor_new\<lparr>opacity := 97 / 100\<rparr>) =
     Inr (AFade ((Fade_new 1 200)\<lparr>fd_started := True, fd_speed := 180\<rparr>), Actor_new) \<and>
   isComplete (AFade ((Fade_new 1 200)\<lparr>fd_started := True, fd_speed := 180\<rparr>)) Actor_new \<and>
   snaps_on_completion (AFade ((Fade_new 1 200)\<lparr>fd_started := True, fd_speed := 180\<rparr>)) \<and>
   actor_after (run_updates update [20, 20]
     (AFade ((Fade_new 1 200)\<lparr>fd_started := True, fd_speed := 180\<rparr>), Actor_new)) =
     Some Actor_new"
proof -
  let ?f = "(Fade_new 1 200)\<lparr>fd_started := True, fd_speed := 180\<rparr>"
  have u: "update 20 (AFade (Fade_new 1 200), Actor_new\<lparr>opacity := 97 / 100\<rparr>) =
      Inr (AFade ?f, Actor_new)"
    by (simp add: Fade_update_def Fade_begin_def Fade_new_def Fade_isComplete_def
        lift_result_def Actor_new_def Let_def)
  have h: "isComplete (AFade ?f) Actor_new" "snaps_on_completion (AFade ?f)"
    "\<forall>e\<in>set [20, 20 :: real]. 0 \<le> e"
    by (simp_all add: Fade_isComplete_def Fade_new_def Actor_new_def)
  from update_after_completing_update[OF u h] u h show ?thesis
    by (auto simp: actor_after_def)
qed

end
